theory Spec2Isabelle
  imports Complex_Main "HOL-Library.Char_ord" "HOL-Library.List_Lexorder"
    "HOL-Library.Multiset"
begin

section \<open>The entity store (schema.ts)\<close>

text \<open>
  The three tables the ingestion writer and the readers touch. A table is the list of
  its rows in insertion order. Columns that no function of queries.ts reads or writes by
  name (cameraId, locationId, createdAt, updatedAt) are left out. The \<open>real\<close> column
  confidenceDetection and JavaScript numbers are taken as exact rationals; timestamps
  are milliseconds since the epoch.
\<close>

definition detectionSourceEnum :: "string list" where
  "detectionSourceEnum = [''upload'', ''camera'', ''import'', ''api'']"

definition vehicleCategoryEnum :: "string list" where
  "vehicleCategoryEnum = [''car'', ''truck'', ''motorcycle'', ''bus'', ''special'', ''other'']"

record licensePlate =
  lp_id :: nat
  lp_plateNumber :: string

record detection =
  d_id :: nat
  d_source :: "string option"
  d_imageUrl :: string
  d_processedImageUrl :: "string option"
  d_detectionTime :: int
  d_processTimeMs :: "int option"

record detectedPlateResult =
  r_id :: nat
  r_detectionId :: nat
  r_licensePlateId :: "nat option"
  r_plateNumber :: string
  r_normalizedPlate :: "string option"
  r_confidenceDetection :: rat
  r_boundingBox :: "rat list"
  r_ocrEngineUsed :: "string option"
  r_typeVehicle :: "string option"
  r_provinceCode :: "string option"
  r_provinceName :: "string option"
  r_plateType :: "string option"
  r_detectedColor :: "string option"
  r_isValidFormat :: "bool option"
  r_formatDescription :: "string option"

record store =
  detections :: "detection list"
  licensePlates :: "licensePlate list"
  detectedPlateResults :: "detectedPlateResult list"

section \<open>JavaScript values and object lookups\<close>

text \<open>
  A filter value has the TypeScript type \<open>unknown\<close>: any JavaScript value. Numbers are
  the finite ones; a Date is a valid one, given by its milliseconds.
\<close>

datatype jsval =
    JUndefined
  | JNull
  | JBool bool
  | JNum rat
  | JStr string
  | JDate int
  | JArr "jsval list"
  | JObj "(string \<times> jsval) list"

fun stringValue :: "jsval \<Rightarrow> string option" where
  "stringValue (JStr s) = Some s"
| "stringValue _ = None"

fun numberValue :: "jsval \<Rightarrow> rat option" where
  "numberValue (JNum x) = Some x"
| "numberValue _ = None"

fun booleanValue :: "jsval \<Rightarrow> bool option" where
  "booleanValue (JBool b) = Some b"
| "booleanValue _ = None"

fun dateValue :: "jsval \<Rightarrow> int option" where
  "dateValue (JDate t) = Some t"
| "dateValue _ = None"

text \<open>\<open>Array.isArray(v) && v.length === 2\<close>, with the two elements.\<close>

fun pairValue :: "jsval \<Rightarrow> (jsval \<times> jsval) option" where
  "pairValue (JArr [a, b]) = Some (a, b)"
| "pairValue _ = None"

text \<open>
  \<open>filterColumnMap\<close>, \<open>sortColumnMap\<close> and \<open>licensePlateRecords\<close> are plain
  object literals read with \<open>obj[key]\<close>. Such a read finds the object's own keys and,
  failing that, the properties every object inherits from \<open>Object.prototype\<close>; the
  inherited values are functions or objects, hence truthy.
\<close>

definition objectPrototypeKeys :: "string list" where
  "objectPrototypeKeys =
     [''constructor'', ''hasOwnProperty'', ''isPrototypeOf'', ''propertyIsEnumerable'',
      ''toLocaleString'', ''toString'', ''valueOf'', ''__proto__'',
      ''__defineGetter__'', ''__defineSetter__'', ''__lookupGetter__'', ''__lookupSetter__'']"

datatype 'a jsprop = Absent | Own 'a | Inherited string

definition js_get :: "(string \<times> 'a) list \<Rightarrow> string \<Rightarrow> 'a jsprop" where
  "js_get obj k =
     (case map_of obj k of
        Some v \<Rightarrow> Own v
      | None \<Rightarrow> if k \<in> set objectPrototypeKeys then Inherited k else Absent)"

section \<open>Conditions and their meaning on a joined row\<close>

datatype column =
    ColPlateNumber
  | ColNormalizedPlate
  | ColConfidenceDetection
  | ColDetectionTime
  | ColProvinceName
  | ColIsValidFormat
  | ColOcrEngineUsed
  | ColTypeVehicle
  | ColSource
  | ColProcessTimeMs

datatype sqlval = VNull | VText string | VNum rat | VBool bool | VTime int

datatype cond =
    ILike column string
  | Eq column sqlval
  | Gte column sqlval
  | Lte column sqlval
  | Lt column sqlval
  | And "cond list"

text \<open>
  A row of the history query: a detectedPlateResults row, left-joined with its detection
  and its license plate (each absent when the join finds none).
\<close>

type_synonym joined_row = "detectedPlateResult \<times> detection option \<times> licensePlate option"

fun textOrNull :: "string option \<Rightarrow> sqlval" where
  "textOrNull None = VNull"
| "textOrNull (Some s) = VText s"

fun col_val :: "column \<Rightarrow> joined_row \<Rightarrow> sqlval" where
  "col_val ColPlateNumber (r, d, p) = VText (r_plateNumber r)"
| "col_val ColNormalizedPlate (r, d, p) = textOrNull (r_normalizedPlate r)"
| "col_val ColConfidenceDetection (r, d, p) = VNum (r_confidenceDetection r)"
| "col_val ColProvinceName (r, d, p) = textOrNull (r_provinceName r)"
| "col_val ColIsValidFormat (r, d, p) =
     (case r_isValidFormat r of None \<Rightarrow> VNull | Some b \<Rightarrow> VBool b)"
| "col_val ColOcrEngineUsed (r, d, p) = textOrNull (r_ocrEngineUsed r)"
| "col_val ColTypeVehicle (r, d, p) = textOrNull (r_typeVehicle r)"
| "col_val ColDetectionTime (r, d, p) =
     (case d of None \<Rightarrow> VNull | Some x \<Rightarrow> VTime (d_detectionTime x))"
| "col_val ColSource (r, d, p) =
     (case d of None \<Rightarrow> VNull | Some x \<Rightarrow> textOrNull (d_source x))"
| "col_val ColProcessTimeMs (r, d, p) =
     (case d of None \<Rightarrow> VNull
      | Some x \<Rightarrow> (case d_processTimeMs x of None \<Rightarrow> VNull | Some n \<Rightarrow> VNum (of_int n)))"

text \<open>
  SQL comparisons are three-valued: \<open>None\<close> is unknown, the result whenever an operand
  is NULL. A WHERE clause keeps the rows on which the condition is true.
\<close>

fun sql_eq :: "sqlval \<Rightarrow> sqlval \<Rightarrow> bool option" where
  "sql_eq (VText a) (VText b) = Some (a = b)"
| "sql_eq (VNum a) (VNum b) = Some (a = b)"
| "sql_eq (VBool a) (VBool b) = Some (a = b)"
| "sql_eq (VTime a) (VTime b) = Some (a = b)"
| "sql_eq _ _ = None"

fun sql_le :: "sqlval \<Rightarrow> sqlval \<Rightarrow> bool option" where
  "sql_le (VText a) (VText b) = Some (a \<le> b)"
| "sql_le (VNum a) (VNum b) = Some (a \<le> b)"
| "sql_le (VBool a) (VBool b) = Some (a \<le> b)"
| "sql_le (VTime a) (VTime b) = Some (a \<le> b)"
| "sql_le _ _ = None"

fun sql_lt :: "sqlval \<Rightarrow> sqlval \<Rightarrow> bool option" where
  "sql_lt (VText a) (VText b) = Some (a < b)"
| "sql_lt (VNum a) (VNum b) = Some (a < b)"
| "sql_lt (VBool a) (VBool b) = Some (a < b)"
| "sql_lt (VTime a) (VTime b) = Some (a < b)"
| "sql_lt _ _ = None"

definition and3 :: "bool option list \<Rightarrow> bool option" where
  "and3 bs =
     (if Some False \<in> set bs then Some False
      else if None \<in> set bs then None
      else Some True)"

text \<open>
  The pattern match of ILIKE belongs to the store; it is the parameter \<open>il\<close>
  (\<open>il s p\<close>: the text \<open>s\<close> matches the pattern \<open>p\<close>).
\<close>

fun eval_cond :: "(string \<Rightarrow> string \<Rightarrow> bool) \<Rightarrow> joined_row \<Rightarrow> cond \<Rightarrow> bool option" where
  "eval_cond il row (ILike c p) =
     (case col_val c row of VText s \<Rightarrow> Some (il s p) | _ \<Rightarrow> None)"
| "eval_cond il row (Eq c v) = sql_eq (col_val c row) v"
| "eval_cond il row (Gte c v) = sql_le v (col_val c row)"
| "eval_cond il row (Lte c v) = sql_le (col_val c row) v"
| "eval_cond il row (Lt c v) = sql_lt (col_val c row) v"
| "eval_cond il row (And cs) = and3 (map (eval_cond il row) cs)"

text \<open>\<open>.where(w)\<close>: with \<open>undefined\<close> every row is kept.\<close>

definition where_keeps :: "(string \<Rightarrow> string \<Rightarrow> bool) \<Rightarrow> cond option \<Rightarrow> joined_row \<Rightarrow> bool" where
  "where_keeps il w row =
     (case w of None \<Rightarrow> True | Some c \<Rightarrow> eval_cond il row c = Some True)"

section \<open>The filter compiler (parseFiltersToDrizzle, queries.ts 178--296)\<close>

definition filterColumnMap :: "(string \<times> column) list" where
  "filterColumnMap =
     [(''plateNumber'', ColPlateNumber),
      (''normalizedPlate'', ColNormalizedPlate),
      (''confidence'', ColConfidenceDetection),
      (''date'', ColDetectionTime),
      (''provinceName'', ColProvinceName),
      (''isValidFormat'', ColIsValidFormat),
      (''ocrEngine'', ColOcrEngineUsed),
      (''typeVehicle'', ColTypeVehicle),
      (''source'', ColSource),
      (''processTime'', ColProcessTimeMs)]"

text \<open>
  date-fns works in the server's local time, taken here as a fixed offset \<open>tz\<close>
  (milliseconds east of UTC): \<open>startOfDay\<close> is local midnight, \<open>addDays\<close> moves by
  whole days.
\<close>

definition msPerDay :: int where
  "msPerDay = 86400000"

definition startOfDay :: "int \<Rightarrow> int \<Rightarrow> int" where
  "startOfDay tz t = t - (t + tz) mod msPerDay"

definition addDays :: "int \<Rightarrow> int \<Rightarrow> int" where
  "addDays t n = t + n * msPerDay"

text \<open>\<open>and(...conditionList)\<close> pushed when the list is not empty.\<close>

definition pushAnd :: "cond list \<Rightarrow> cond list" where
  "pushAnd conditionList = (if conditionList = [] then [] else [And conditionList])"

definition minCondition :: "string \<Rightarrow> column \<Rightarrow> jsval \<Rightarrow> cond list" where
  "minCondition columnId col mn =
     (case numberValue mn of
        Some x \<Rightarrow> [Gte col (VNum (if columnId = ''confidence'' then x / 100 else x))]
      | None \<Rightarrow> [])"

definition maxCondition :: "string \<Rightarrow> column \<Rightarrow> jsval \<Rightarrow> cond list" where
  "maxCondition columnId col mx =
     (case numberValue mx of
        Some x \<Rightarrow> [Lte col (VNum (if columnId = ''confidence'' then x / 100 else x))]
      | None \<Rightarrow> [])"

definition fromCondition :: "int \<Rightarrow> column \<Rightarrow> jsval \<Rightarrow> cond list" where
  "fromCondition tz col from =
     (case dateValue from of
        Some t \<Rightarrow> [Gte col (VTime (startOfDay tz t))]
      | None \<Rightarrow> [])"

definition toCondition :: "int \<Rightarrow> column \<Rightarrow> jsval \<Rightarrow> cond list" where
  "toCondition tz col to =
     (case dateValue to of
        Some t \<Rightarrow> [Lt col (VTime (addDays (startOfDay tz t) 1))]
      | None \<Rightarrow> [])"

text \<open>A property of an object literal that is read by destructuring.\<close>

definition field :: "(string \<times> jsval) list \<Rightarrow> string \<Rightarrow> jsval" where
  "field fs k = (case map_of fs k of Some v \<Rightarrow> v | None \<Rightarrow> JUndefined)"

text \<open>
  The body of the loop over the filters: the conditions one filter pushes. The switch
  is on \<open>columnId\<close>; an id whose lookup only finds an inherited property reaches the
  default case.
\<close>

definition filterConditions :: "int \<Rightarrow> string \<times> jsval \<Rightarrow> cond list" where
  "filterConditions tz f =
     (let columnId = fst f; filterValue = snd f in
      case js_get filterColumnMap columnId of
        Absent \<Rightarrow> []
      | Inherited k \<Rightarrow> []
      | Own col \<Rightarrow>
          if columnId = ''plateNumber'' \<or> columnId = ''normalizedPlate''
             \<or> columnId = ''provinceName'' then
            (case stringValue filterValue of
               Some s \<Rightarrow> if length s > 0 then [ILike col (''%'' @ s @ ''%'')] else []
             | None \<Rightarrow> [])
          else if columnId = ''ocrEngine'' \<or> columnId = ''typeVehicle''
             \<or> columnId = ''source'' then
            (case stringValue filterValue of
               Some s \<Rightarrow>
                 if length s > 0 then
                   (if columnId = ''typeVehicle'' \<and> s \<notin> set vehicleCategoryEnum then []
                    else if columnId = ''source'' \<and> s \<notin> set detectionSourceEnum then []
                    else [Eq col (VText s)])
                 else []
             | None \<Rightarrow> [])
          else if columnId = ''confidence'' \<or> columnId = ''processTime'' then
            (case pairValue filterValue of
               Some (mn, mx) \<Rightarrow>
                 if numberValue mn \<noteq> None \<or> numberValue mx \<noteq> None then
                   pushAnd (minCondition columnId col mn @ maxCondition columnId col mx)
                 else []
             | None \<Rightarrow> [])
          else if columnId = ''isValidFormat'' then
            (case booleanValue filterValue of
               Some b \<Rightarrow> [Eq col (VBool b)]
             | None \<Rightarrow> [])
          else if columnId = ''date'' then
            (case filterValue of
               JObj fs \<Rightarrow>
                 if map_of fs ''from'' \<noteq> None \<or> map_of fs ''to'' \<noteq> None then
                   pushAnd (fromCondition tz col (field fs ''from'')
                            @ toCondition tz col (field fs ''to''))
                 else []
             | _ \<Rightarrow> [])
          else [])"

fun collectConditions :: "int \<Rightarrow> cond list \<Rightarrow> (string \<times> jsval) list \<Rightarrow> cond list" where
  "collectConditions tz conditions [] = conditions"
| "collectConditions tz conditions (f # filters) =
     collectConditions tz (conditions @ filterConditions tz f) filters"

definition parseFiltersToDrizzle :: "int \<Rightarrow> (string \<times> jsval) list \<Rightarrow> cond option" where
  "parseFiltersToDrizzle tz filters =
     (let conditions = collectConditions tz [] filters in
      if conditions = [] then None else Some (And conditions))"

section \<open>The sort compiler (parseSortingToDrizzle, queries.ts 191--315)\<close>

definition sortColumnMap :: "(string \<times> column) list" where
  "sortColumnMap =
     [(''plateNumber'', ColPlateNumber),
      (''confidence'', ColConfidenceDetection),
      (''date'', ColDetectionTime),
      (''provinceName'', ColProvinceName),
      (''isValidFormat'', ColIsValidFormat),
      (''ocrEngine'', ColOcrEngineUsed),
      (''normalizedPlate'', ColNormalizedPlate),
      (''source'', ColSource),
      (''processTime'', ColProcessTimeMs)]"

text \<open>
  What \<open>asc\<close> and \<open>desc\<close> are applied to: a column of the schema, or whatever else the
  lookup in \<open>sortColumnMap\<close> returned (an inherited property, named by its key), which
  is no column and has the same value on every row.
\<close>

datatype sortKey = SortColumn column | SortParam string

datatype orderTerm = Asc sortKey | Desc sortKey

text \<open>
  Every inherited property is a function, except \<open>__proto__\<close>, whose value is the
  object \<open>Object.prototype\<close> itself. \<open>asc\<close> and \<open>desc\<close> build an SQL fragment, and
  the fragment's constructor looks, for each argument that is an object, at the
  constructor of the argument's prototype; \<open>Object.prototype\<close> has no prototype, so the
  look-up raises a TypeError. A function passes untouched.
\<close>

datatype js_error = TypeError

text \<open>An \<open>ApiSort\<close> is the pair of its \<open>id\<close> and its \<open>desc\<close> flag.\<close>

definition sortClause :: "string \<times> bool \<Rightarrow> js_error + orderTerm" where
  "sortClause spec =
     (case js_get sortColumnMap (fst spec) of
        Absent \<Rightarrow> Inr (Desc (SortColumn ColDetectionTime))
      | Own col \<Rightarrow> Inr (if snd spec then Desc (SortColumn col) else Asc (SortColumn col))
      | Inherited k \<Rightarrow>
          if k = ''__proto__'' then Inl TypeError
          else Inr (if snd spec then Desc (SortParam k) else Asc (SortParam k)))"

text \<open>\<open>sorting.map(...)\<close>: the first clause that raises ends the map.\<close>

fun sortClauses :: "(string \<times> bool) list \<Rightarrow> js_error + orderTerm list" where
  "sortClauses [] = Inr []"
| "sortClauses (spec # rest) =
     (case sortClause spec of
        Inl e \<Rightarrow> Inl e
      | Inr t \<Rightarrow> (case sortClauses rest of Inl e \<Rightarrow> Inl e | Inr ts \<Rightarrow> Inr (t # ts)))"

definition parseSortingToDrizzle :: "(string \<times> bool) list \<Rightarrow> js_error + orderTerm list" where
  "parseSortingToDrizzle sorting =
     (if sorting = [] then Inr [Desc (SortColumn ColDetectionTime)]
      else sortClauses sorting)"

subsection \<open>ORDER BY\<close>

text \<open>
  An enum column orders by the position of the label in the enum's declaration; text
  orders bytewise; NULL sorts after every value ascending and before every value
  descending. A column holds values of one type, so values of two types never meet in
  one comparison; ordering them by type makes the comparison total.

  ORDER BY fixes the order of the rows only as far as the terms tell them apart: rows
  that tie come in whatever order the store produced them. \<open>order_by\<close> sorts stably the
  list it is given, and the history reader gives it the rows as the store arranged
  them (its parameter \<open>scan\<close>); every arrangement that the terms allow is the result
  for some \<open>scan\<close>.
\<close>

fun enum_pos :: "string list \<Rightarrow> string \<Rightarrow> nat" where
  "enum_pos [] v = 0"
| "enum_pos (x # xs) v = (if x = v then 0 else Suc (enum_pos xs v))"

fun order_val :: "sortKey \<Rightarrow> joined_row \<Rightarrow> sqlval" where
  "order_val (SortParam k) row = VText k"
| "order_val (SortColumn c) (r, d, p) =
     (if c = ColSource then
        (case d of None \<Rightarrow> VNull
         | Some x \<Rightarrow>
             (case d_source x of None \<Rightarrow> VNull
              | Some s \<Rightarrow> VNum (of_nat (enum_pos detectionSourceEnum s))))
      else col_val c (r, d, p))"

fun val_rank :: "sqlval \<Rightarrow> nat" where
  "val_rank (VText a) = 0"
| "val_rank (VNum a) = 1"
| "val_rank (VBool a) = 2"
| "val_rank (VTime a) = 3"
| "val_rank VNull = 4"

fun val_before :: "sqlval \<Rightarrow> sqlval \<Rightarrow> bool" where
  "val_before (VText a) (VText b) = (a < b)"
| "val_before (VNum a) (VNum b) = (a < b)"
| "val_before (VBool a) (VBool b) = (a < b)"
| "val_before (VTime a) (VTime b) = (a < b)"
| "val_before a b = (val_rank a < val_rank b)"

fun term_before :: "orderTerm \<Rightarrow> joined_row \<Rightarrow> joined_row \<Rightarrow> bool" where
  "term_before (Asc k) a b = val_before (order_val k a) (order_val k b)"
| "term_before (Desc k) a b = val_before (order_val k b) (order_val k a)"

fun row_le :: "orderTerm list \<Rightarrow> joined_row \<Rightarrow> joined_row \<Rightarrow> bool" where
  "row_le [] a b = True"
| "row_le (t # ts) a b =
     (if term_before t a b then True
      else if term_before t b a then False
      else row_le ts a b)"

fun insert_row :: "orderTerm list \<Rightarrow> joined_row \<Rightarrow> joined_row list \<Rightarrow> joined_row list" where
  "insert_row ts x [] = [x]"
| "insert_row ts x (y # ys) =
     (if row_le ts x y then x # y # ys else y # insert_row ts x ys)"

definition order_by :: "orderTerm list \<Rightarrow> joined_row list \<Rightarrow> joined_row list" where
  "order_by ts rows = foldr (insert_row ts) rows []"

section \<open>Storage failures\<close>

text \<open>
  Each statement sent to the store may fail (a constraint, a lost connection). Which
  ones do is the parameter \<open>fails\<close> of the functions below.
\<close>

datatype db_step =
    InsertDetection
  | UpsertLicensePlates
  | SelectLicensePlates
  | InsertPlateResults
  | Commit
  | FindCreatedDetection
  | HistoryPageQuery
  | HistoryCountQuery
  | OcrEnginesQuery
  | VehicleTypesQuery
  | SourcesQuery

datatype tx_error = StepFailed db_step | NoDetectionId

text \<open>The errors the exported functions throw, one message each.\<close>

datatype query_error =
    SaveFailed         \<comment> \<open>Failed to save detection result via query function.\<close>
  | HistoryFailed      \<comment> \<open>Failed to fetch detection history from database.\<close>
  | OptionsFailed      \<comment> \<open>Failed to fetch filter options from database.\<close>
  | Uncaught js_error  \<comment> \<open>an error raised outside every try block, thrown as it is\<close>

section \<open>The history reader (fetchDetectionHistory, queries.ts 320--391)\<close>

definition joinDetections :: "store \<Rightarrow> detectedPlateResult \<Rightarrow> (detectedPlateResult \<times> detection option) list" where
  "joinDetections s r =
     (case filter (\<lambda>d. d_id d = r_detectionId r) (detections s) of
        [] \<Rightarrow> [(r, None)]
      | ds \<Rightarrow> map (\<lambda>d. (r, Some d)) ds)"

definition joinLicensePlates :: "store \<Rightarrow> detectedPlateResult \<times> detection option \<Rightarrow> joined_row list" where
  "joinLicensePlates s rd =
     (case filter (\<lambda>p. Some (lp_id p) = r_licensePlateId (fst rd)) (licensePlates s) of
        [] \<Rightarrow> [(fst rd, snd rd, None)]
      | ps \<Rightarrow> map (\<lambda>p. (fst rd, snd rd, Some p)) ps)"

text \<open>\<open>baseQuery\<close>: both left joins. The count query joins the detections only.\<close>

definition baseQuery :: "store \<Rightarrow> joined_row list" where
  "baseQuery s =
     concat (map (joinLicensePlates s) (concat (map (joinDetections s) (detectedPlateResults s))))"

definition countQueryRows :: "store \<Rightarrow> joined_row list" where
  "countQueryRows s =
     map (\<lambda>rd. (fst rd, snd rd, None)) (concat (map (joinDetections s) (detectedPlateResults s)))"

text \<open>
  A \<open>HistoryQueryResultItem\<close> is the result row with its detection and its license
  plate as sub-objects: the joined row itself.
\<close>

record FetchHistoryResult =
  rows :: "joined_row list"
  totalRowCount :: nat

text \<open>
  \<open>pagination\<close> is the pair (pageIndex, pageSize) of natural numbers. The two compilers
  run before the \<open>try\<close> block (lines 329--330), so what they raise is not caught;
  the queries run inside it. \<open>scan\<close> is the order in which the store hands the rows
  of the page query to the sort.
\<close>

definition fetchDetectionHistory ::
  "(db_step \<Rightarrow> bool) \<Rightarrow> (string \<Rightarrow> string \<Rightarrow> bool) \<Rightarrow> int
   \<Rightarrow> (joined_row list \<Rightarrow> joined_row list) \<Rightarrow> store
   \<Rightarrow> nat \<times> nat \<Rightarrow> (string \<times> bool) list \<Rightarrow> (string \<times> jsval) list
   \<Rightarrow> query_error + FetchHistoryResult" where
  "fetchDetectionHistory fails il tz scan s pagination sorting filters =
     (let pageIndex = fst pagination;
          pageSize = snd pagination;
          offset = pageIndex * pageSize;
          limit = pageSize;
          whereCondition = parseFiltersToDrizzle tz filters
      in
        case parseSortingToDrizzle sorting of
          Inl e \<Rightarrow> Inl (Uncaught e)
        | Inr orderByCondition \<Rightarrow>
            if fails HistoryPageQuery \<or> fails HistoryCountQuery then Inl HistoryFailed
            else
              Inr \<lparr> rows =
                      take limit (drop offset
                        (order_by orderByCondition
                           (scan (filter (where_keeps il whereCondition) (baseQuery s))))),
                    totalRowCount =
                      length (filter (where_keeps il whereCondition) (countQueryRows s)) \<rparr>)"

section \<open>The options reader (getFilterOptions, queries.ts 396--455)\<close>

record FilterOptions =
  ocrEngines :: "string list"
  vehicleTypes :: "string list"
  sources :: "string list"

text \<open>
  The three SELECT DISTINCT queries, each with its WHERE and ORDER BY; the results are
  lists of nullable values, which the function then filters once more.
\<close>

definition enginesQuery :: "store \<Rightarrow> string option list" where
  "enginesQuery s =
     map Some (sort (remdups
       (filter (\<lambda>e. e \<noteq> '''') (List.map_filter r_ocrEngineUsed (detectedPlateResults s)))))"

definition typesQuery :: "store \<Rightarrow> string option list" where
  "typesQuery s =
     map Some (sort_key (enum_pos vehicleCategoryEnum)
       (remdups (List.map_filter r_typeVehicle (detectedPlateResults s))))"

definition sourcesQuery :: "store \<Rightarrow> string option list" where
  "sourcesQuery s =
     map Some (sort_key (enum_pos detectionSourceEnum)
       (remdups (List.map_filter d_source (detections s))))"

definition getFilterOptions :: "(db_step \<Rightarrow> bool) \<Rightarrow> store \<Rightarrow> query_error + FilterOptions" where
  "getFilterOptions fails s =
     (if fails OcrEnginesQuery \<or> fails VehicleTypesQuery \<or> fails SourcesQuery
      then Inl OptionsFailed
      else
        Inr \<lparr> ocrEngines = List.map_filter (\<lambda>e. e) (enginesQuery s),
              vehicleTypes = List.map_filter (\<lambda>t. t) (typesQuery s),
              sources = List.map_filter (\<lambda>x. x) (sourcesQuery s) \<rparr>)"

section \<open>The recognition response (types.ts)\<close>

record plateTypeInfo =
  pti_name :: string
  pti_description :: string
  pti_category :: "string option"

record BackendPlateAnalysis =
  pa_original :: string
  pa_normalized :: string
  pa_province_code :: "string option"
  pa_province_name :: "string option"
  pa_serial :: "string option"
  pa_number :: "string option"
  pa_plate_type :: string
  pa_plate_type_info :: "plateTypeInfo option"
  pa_detected_color :: "string option"
  pa_is_valid_format :: bool
  pa_format_description :: "string option"

record BackendDetection =
  plate_number :: string
  confidence_detection :: rat
  bounding_box :: "rat list"
  plate_analysis :: "BackendPlateAnalysis option"
  ocr_engine_used :: "string option"

text \<open>
  The function guards against a missing response and a missing detection list, so both
  are optional here.
\<close>

record ApiResponse =
  api_detections :: "BackendDetection list option"
  processed_image_url :: "string option"
  processing_time_ms :: "rat option"
  api_error :: "string option"

section \<open>The ingestion writer (insertDetectionAndResults, queries.ts 44--166)\<close>

text \<open>
  \<open>String.prototype.trim\<close>, on the ASCII white space (strings are byte strings; the
  white space characters beyond ASCII are not told apart from other bytes).
\<close>

definition isWhiteSpace :: "char \<Rightarrow> bool" where
  "isWhiteSpace c = (c \<in> set [CHR 0x09, CHR 0x0A, CHR 0x0B, CHR 0x0C, CHR 0x0D, CHR '' ''])"

definition trim :: "string \<Rightarrow> string" where
  "trim s = rev (dropWhile isWhiteSpace (rev (dropWhile isWhiteSpace s)))"

text \<open>\<open>Math.round\<close> rounds halves up.\<close>

definition Math_round :: "rat \<Rightarrow> int" where
  "Math_round x = \<lfloor>x + 1 / 2\<rfloor>"

text \<open>A \<open>serial\<close> primary key: the store gives a new row an id above every id of the table.\<close>

definition nextId :: "nat list \<Rightarrow> nat" where
  "nextId ids = Suc (fold max ids 0)"

definition insertDetection :: "detection \<Rightarrow> store \<Rightarrow> nat \<times> store" where
  "insertDetection d tx =
     (let insertedId = nextId (map d_id (detections tx)) in
      (insertedId, tx\<lparr>detections := detections tx @ [d\<lparr>d_id := insertedId\<rparr>]\<rparr>))"

text \<open>\<open>[...new Set(xs)]\<close> keeps the first occurrence of each element, in order.\<close>

definition uniquePlateNumbersOf :: "BackendDetection list \<Rightarrow> string list" where
  "uniquePlateNumbersOf dets =
     (let detectedPlateNumbers =
            filter (\<lambda>pn. pn \<noteq> [] \<and> trim pn \<noteq> []) (map plate_number dets)
      in rev (remdups (rev detectedPlateNumbers)))"

text \<open>
  The multi-row insert with \<open>onConflictDoNothing\<close> on plateNumber: a row whose plate
  number the table already holds is skipped.
\<close>

fun upsertLicensePlates :: "string list \<Rightarrow> licensePlate list \<Rightarrow> licensePlate list" where
  "upsertLicensePlates [] tbl = tbl"
| "upsertLicensePlates (pn # pns) tbl =
     upsertLicensePlates pns
       (if pn \<in> set (map lp_plateNumber tbl) then tbl
        else tbl @ [\<lparr>lp_id = nextId (map lp_id tbl), lp_plateNumber = pn\<rparr>])"

definition selectLicensePlates :: "string list \<Rightarrow> store \<Rightarrow> licensePlate list" where
  "selectLicensePlates pns tx = filter (\<lambda>p. lp_plateNumber p \<in> set pns) (licensePlates tx)"

text \<open>
  \<open>licensePlateRecords[k] = id\<close> on an object literal: the key \<open>__proto__\<close> names the
  prototype, and assigning a number to it leaves the object as it was.
\<close>

definition js_set :: "(string \<times> 'a) list \<Rightarrow> string \<Rightarrow> 'a \<Rightarrow> (string \<times> 'a) list" where
  "js_set obj k v = (if k = ''__proto__'' then obj else (k, v) # obj)"

definition licensePlateRecordsOf :: "licensePlate list \<Rightarrow> (string \<times> nat) list" where
  "licensePlateRecordsOf fetchedPlates =
     fold (\<lambda>p recs. js_set recs (lp_plateNumber p) (lp_id p)) fetchedPlates []"

text \<open>
  The value computed for licensePlateId: \<open>Absent\<close> is null, \<open>Own i\<close> the id \<open>i\<close>, and
  \<open>Inherited k\<close> an inherited property, which is no integer.
\<close>

definition licensePlateIdOf :: "(string \<times> nat) list \<Rightarrow> string \<Rightarrow> nat jsprop" where
  "licensePlateIdOf licensePlateRecords primaryPlateNumber =
     (case js_get licensePlateRecords primaryPlateNumber of
        Absent \<Rightarrow> Absent
      | Own i \<Rightarrow> if primaryPlateNumber \<noteq> [] \<and> i \<noteq> 0 then Own i else Absent
      | Inherited k \<Rightarrow> if primaryPlateNumber \<noteq> [] then Inherited k else Absent)"

definition vehicleCategoryOf :: "BackendDetection \<Rightarrow> string option" where
  "vehicleCategoryOf det =
     (case plate_analysis det of
        None \<Rightarrow> None
      | Some pa \<Rightarrow>
          (case pa_plate_type_info pa of
             None \<Rightarrow> None
           | Some info \<Rightarrow>
               (case pti_category info of
                  None \<Rightarrow> None
                | Some c \<Rightarrow> if c \<noteq> [] \<and> c \<in> set vehicleCategoryEnum then Some c else None)))"

fun isInherited :: "'a jsprop \<Rightarrow> bool" where
  "isInherited (Inherited k) = True"
| "isInherited _ = False"

fun ownValue :: "'a jsprop \<Rightarrow> 'a option" where
  "ownValue (Own v) = Some v"
| "ownValue _ = None"

text \<open>
  One row to insert, with the value computed for its licensePlateId beside it; the
  store assigns \<open>r_id\<close> on insertion.
\<close>

definition detectedPlateData ::
  "nat \<Rightarrow> (string \<times> nat) list \<Rightarrow> BackendDetection \<Rightarrow> nat jsprop \<times> detectedPlateResult" where
  "detectedPlateData detectionId licensePlateRecords det =
     (let plateAnalysis = plate_analysis det;
          primaryPlateNumber = plate_number det;
          licensePlateId = licensePlateIdOf licensePlateRecords primaryPlateNumber
      in
        (licensePlateId,
         \<lparr> r_id = 0,
           r_detectionId = detectionId,
           r_licensePlateId = ownValue licensePlateId,
           r_plateNumber = primaryPlateNumber,
           r_normalizedPlate = map_option pa_normalized plateAnalysis,
           r_confidenceDetection = confidence_detection det,
           r_boundingBox = bounding_box det,
           r_ocrEngineUsed = ocr_engine_used det,
           r_typeVehicle = vehicleCategoryOf det,
           r_provinceCode = Option.bind plateAnalysis pa_province_code,
           r_provinceName = Option.bind plateAnalysis pa_province_name,
           r_plateType = map_option pa_plate_type plateAnalysis,
           r_detectedColor = Option.bind plateAnalysis pa_detected_color,
           r_isValidFormat = map_option pa_is_valid_format plateAnalysis,
           r_formatDescription = Option.bind plateAnalysis pa_format_description \<rparr>))"

fun insertPlateResults :: "detectedPlateResult list \<Rightarrow> detectedPlateResult list \<Rightarrow> detectedPlateResult list" where
  "insertPlateResults [] tbl = tbl"
| "insertPlateResults (x # xs) tbl =
     insertPlateResults xs (tbl @ [x\<lparr>r_id := nextId (map r_id tbl)\<rparr>])"

text \<open>
  The callback given to \<open>db.transaction\<close>, on the transaction's working copy \<open>tx\<close> of
  the store. It returns the new detection's id, or the error it throws.
\<close>

definition saveTransaction ::
  "(db_step \<Rightarrow> bool) \<Rightarrow> int \<Rightarrow> ApiResponse \<Rightarrow> BackendDetection list \<Rightarrow> string \<Rightarrow> string
   \<Rightarrow> store \<Rightarrow> tx_error + nat \<times> store" where
  "saveTransaction fails now apiResponse dets source originalImageUrl tx =
     (if fails InsertDetection then Inl (StepFailed InsertDetection)
      else
        let ins = insertDetection
                    \<lparr> d_id = 0,
                      d_source = Some source,
                      d_imageUrl = originalImageUrl,
                      d_processedImageUrl = processed_image_url apiResponse,
                      d_detectionTime = now,
                      d_processTimeMs = map_option Math_round (processing_time_ms apiResponse) \<rparr>
                    tx;
            detectionId = fst ins;
            tx1 = snd ins
        in
          if detectionId = 0 then Inl NoDetectionId
          else
            let uniquePlateNumbers = uniquePlateNumbersOf dets in
            if uniquePlateNumbers \<noteq> [] \<and> fails UpsertLicensePlates
              then Inl (StepFailed UpsertLicensePlates)
            else if uniquePlateNumbers \<noteq> [] \<and> fails SelectLicensePlates
              then Inl (StepFailed SelectLicensePlates)
            else
              let tx2 = (if uniquePlateNumbers \<noteq> []
                         then tx1\<lparr>licensePlates :=
                                    upsertLicensePlates uniquePlateNumbers (licensePlates tx1)\<rparr>
                         else tx1);
                  fetchedPlates = (if uniquePlateNumbers \<noteq> []
                                   then selectLicensePlates uniquePlateNumbers tx2 else []);
                  licensePlateRecords = licensePlateRecordsOf fetchedPlates;
                  plateDataToInsert = map (detectedPlateData detectionId licensePlateRecords) dets
              in
                if plateDataToInsert \<noteq> []
                   \<and> (fails InsertPlateResults
                        \<or> list_ex (\<lambda>x. isInherited (fst x)) plateDataToInsert)
                  then Inl (StepFailed InsertPlateResults)
                else
                  Inr (detectionId,
                       tx2\<lparr>detectedPlateResults :=
                             insertPlateResults (map snd plateDataToInsert)
                               (detectedPlateResults tx2)\<rparr>))"

text \<open>
  \<open>db.transaction\<close>: the callback runs on a working copy; when it throws, or the commit
  fails, the copy is dropped and the store stays as it was.
\<close>

definition db_transaction ::
  "(db_step \<Rightarrow> bool) \<Rightarrow> (store \<Rightarrow> tx_error + 'a \<times> store) \<Rightarrow> store \<Rightarrow> (tx_error + 'a) \<times> store" where
  "db_transaction fails body s =
     (case body s of
        Inl e \<Rightarrow> (Inl e, s)
      | Inr (a, tx) \<Rightarrow> if fails Commit then (Inl (StepFailed Commit), s) else (Inr a, tx))"

text \<open>\<open>db.query.detections.findFirst\<close> with the detection's plates.\<close>

definition findCreatedDetection :: "store \<Rightarrow> nat \<Rightarrow> (detection \<times> detectedPlateResult list) option" where
  "findCreatedDetection s i =
     (case find (\<lambda>d. d_id d = i) (detections s) of
        None \<Rightarrow> None
      | Some d \<Rightarrow> Some (d, filter (\<lambda>r. r_detectionId r = d_id d) (detectedPlateResults s)))"

text \<open>
  The function returns the store it leaves behind together with its result:
  \<open>Inr None\<close> is the null return, \<open>Inl SaveFailed\<close> the error thrown from the catch block.
\<close>

definition insertDetectionAndResults ::
  "(db_step \<Rightarrow> bool) \<Rightarrow> int \<Rightarrow> store \<Rightarrow> ApiResponse option \<Rightarrow> string \<Rightarrow> string
   \<Rightarrow> (query_error + (detection \<times> detectedPlateResult list) option) \<times> store" where
  "insertDetectionAndResults fails now s apiResponse source originalImageUrl =
     (case apiResponse of
        None \<Rightarrow> (Inr None, s)
      | Some resp \<Rightarrow>
          (case api_detections resp of
             None \<Rightarrow> (Inr None, s)
           | Some dets \<Rightarrow>
               if length dets = 0 then (Inr None, s)
               else
                 (case db_transaction fails
                         (saveTransaction fails now resp dets source originalImageUrl) s of
                    (Inl e, s') \<Rightarrow> (Inl SaveFailed, s')
                  | (Inr detectionId, s') \<Rightarrow>
                      if fails FindCreatedDetection then (Inl SaveFailed, s')
                      else (Inr (findCreatedDetection s' detectionId), s'))))"

section \<open>The filters built by the /history route (index.ts 191--252)\<close>

text \<open>
  The route walks the entries of the validated query parameters and builds the filter
  list; the four range parameters are merged, by id, into one two-element array each.
\<close>

fun truthy :: "jsval \<Rightarrow> bool" where
  "truthy JUndefined = False"
| "truthy JNull = False"
| "truthy (JBool b) = b"
| "truthy (JNum x) = (x \<noteq> 0)"
| "truthy (JStr s) = (s \<noteq> [])"
| "truthy _ = True"

text \<open>\<open>existing.value[i] = value\<close>; writing past the end of an array extends it.\<close>

definition setIndex :: "nat \<Rightarrow> jsval \<Rightarrow> jsval \<Rightarrow> jsval" where
  "setIndex i value existing =
     (case existing of
        JArr xs \<Rightarrow>
          if i < length xs then JArr (xs[i := value])
          else JArr (xs @ replicate (i - length xs) JUndefined @ [value])
      | v \<Rightarrow> v)"

fun updateFirst :: "string \<Rightarrow> (jsval \<Rightarrow> jsval) \<Rightarrow> (string \<times> jsval) list \<Rightarrow> (string \<times> jsval) list" where
  "updateFirst k g [] = []"
| "updateFirst k g (f # fs) =
     (if fst f = k then (fst f, g (snd f)) # fs else f # updateFirst k g fs)"

definition rangeParam :: "string \<Rightarrow> bool \<Rightarrow> jsval \<Rightarrow> (string \<times> jsval) list \<Rightarrow> (string \<times> jsval) list" where
  "rangeParam fid isMin value filters =
     (if fid \<in> set (map fst filters)
      then updateFirst fid (setIndex (if isMin then 0 else 1) value) filters
      else filters @ [(fid, if isMin then JArr [value, JUndefined] else JArr [JUndefined, value])])"

text \<open>One round of the loop over \<open>Object.entries(validQueryParams)\<close>.\<close>

definition historyFilterStep ::
  "string \<times> jsval \<Rightarrow> (string \<times> jsval) list \<times> (string \<times> jsval) list
   \<Rightarrow> (string \<times> jsval) list \<times> (string \<times> jsval) list" where
  "historyFilterStep entry st =
     (let key = fst entry; value = snd entry; filters = fst st; dateFilter = snd st in
      if value = JUndefined \<or> value = JNull then (filters, dateFilter)
      else if key = ''pageIndex'' \<or> key = ''pageSize'' \<or> key = ''sortId'' \<or> key = ''sortDesc''
        then (filters, dateFilter)
      else if key = ''dateFrom'' then (filters, (''from'', value) # dateFilter)
      else if key = ''dateTo'' then (filters, (''to'', value) # dateFilter)
      else if key = ''confidenceMin'' \<or> key = ''confidenceMax''
        then (rangeParam ''confidence'' (key = ''confidenceMin'') value filters, dateFilter)
      else if key = ''processTimeMin'' \<or> key = ''processTimeMax''
        then (rangeParam ''processTime'' (key = ''processTimeMin'') value filters, dateFilter)
      else if key = ''isValidFormat''
        then (filters @ [(key, JBool (value = JStr ''true''))], dateFilter)
      else (filters @ [(key, value)], dateFilter))"

fun historyFilterLoop ::
  "(string \<times> jsval) list \<Rightarrow> (string \<times> jsval) list \<times> (string \<times> jsval) list
   \<Rightarrow> (string \<times> jsval) list \<times> (string \<times> jsval) list" where
  "historyFilterLoop [] st = st"
| "historyFilterLoop (entry # rest) st = historyFilterLoop rest (historyFilterStep entry st)"

definition historyFilters :: "(string \<times> jsval) list \<Rightarrow> (string \<times> jsval) list" where
  "historyFilters entries =
     (let st = historyFilterLoop entries ([], []);
          filters = fst st;
          dateFilter = snd st
      in if truthy (field dateFilter ''from'') \<or> truthy (field dateFilter ''to'')
         then filters @ [(''date'', JObj dateFilter)]
         else filters)"

section \<open>Example data\<close>

definition ex_result :: detectedPlateResult where
  "ex_result = \<lparr> r_id = 1, r_detectionId = 1, r_licensePlateId = Some 1,
     r_plateNumber = ''51F-123.45'', r_normalizedPlate = Some ''51F12345'',
     r_confidenceDetection = 1 / 2, r_boundingBox = [0, 0, 10, 10],
     r_ocrEngineUsed = Some ''paddleocr'', r_typeVehicle = Some ''car'', r_provinceCode = None,
     r_provinceName = None, r_plateType = None, r_detectedColor = None,
     r_isValidFormat = Some True, r_formatDescription = None \<rparr>"

definition ex_detection :: detection where
  "ex_detection = \<lparr> d_id = 1, d_source = Some ''upload'', d_imageUrl = ''a.jpg'',
     d_processedImageUrl = None, d_detectionTime = 1700000000000, d_processTimeMs = Some 12 \<rparr>"

definition ex_store :: store where
  "ex_store = \<lparr> detections = [ex_detection],
     licensePlates = [\<lparr> lp_id = 1, lp_plateNumber = ''51F-123.45'' \<rparr>],
     detectedPlateResults = [ex_result] \<rparr>"

text \<open>
  A response with three plates: one the store knows, one new, one that is only a blank.
\<close>

definition ex_dets :: "BackendDetection list" where
  "ex_dets =
     [\<lparr> plate_number = ''51F-123.45'', confidence_detection = 9 / 10,
        bounding_box = [1, 2, 3, 4], plate_analysis = None, ocr_engine_used = Some ''paddleocr'' \<rparr>,
      \<lparr> plate_number = ''30A-999.99'', confidence_detection = 2 / 5,
        bounding_box = [5, 6, 7, 8], plate_analysis = None, ocr_engine_used = None \<rparr>,
      \<lparr> plate_number = '' '', confidence_detection = 1 / 5,
        bounding_box = [5, 6, 7, 8], plate_analysis = None, ocr_engine_used = None \<rparr>]"

definition ex_response :: ApiResponse where
  "ex_response = \<lparr> api_detections = Some ex_dets, processed_image_url = None,
     processing_time_ms = Some (25 / 2), api_error = None \<rparr>"

definition ex_new_detection :: detection where
  "ex_new_detection = \<lparr> d_id = 2, d_source = Some ''api'', d_imageUrl = ''b.jpg'',
     d_processedImageUrl = None, d_detectionTime = 1700000000500, d_processTimeMs = Some 13 \<rparr>"

definition ex_new_results :: "detectedPlateResult list" where
  "ex_new_results =
     [\<lparr> r_id = 2, r_detectionId = 2, r_licensePlateId = Some 1,
        r_plateNumber = ''51F-123.45'', r_normalizedPlate = None,
        r_confidenceDetection = 9 / 10, r_boundingBox = [1, 2, 3, 4],
        r_ocrEngineUsed = Some ''paddleocr'', r_typeVehicle = None,
        r_provinceCode = None, r_provinceName = None, r_plateType = None,
        r_detectedColor = None, r_isValidFormat = None, r_formatDescription = None \<rparr>,
      \<lparr> r_id = 3, r_detectionId = 2, r_licensePlateId = Some 2,
        r_plateNumber = ''30A-999.99'', r_normalizedPlate = None,
        r_confidenceDetection = 2 / 5, r_boundingBox = [5, 6, 7, 8],
        r_ocrEngineUsed = None, r_typeVehicle = None,
        r_provinceCode = None, r_provinceName = None, r_plateType = None,
        r_detectedColor = None, r_isValidFormat = None, r_formatDescription = None \<rparr>,
      \<lparr> r_id = 4, r_detectionId = 2, r_licensePlateId = None,
        r_plateNumber = '' '', r_normalizedPlate = None,
        r_confidenceDetection = 1 / 5, r_boundingBox = [5, 6, 7, 8],
        r_ocrEngineUsed = None, r_typeVehicle = None,
        r_provinceCode = None, r_provinceName = None, r_plateType = None,
        r_detectedColor = None, r_isValidFormat = None, r_formatDescription = None \<rparr>]"

definition ex_store_after :: store where
  "ex_store_after = \<lparr> detections = [ex_detection, ex_new_detection],
     licensePlates = [\<lparr> lp_id = 1, lp_plateNumber = ''51F-123.45'' \<rparr>,
                      \<lparr> lp_id = 2, lp_plateNumber = ''30A-999.99'' \<rparr>],
     detectedPlateResults = ex_result # ex_new_results \<rparr>"

text \<open>No statement fails; an ILIKE that matches nothing (the examples use no text filter).\<close>

definition no_failure :: "db_step \<Rightarrow> bool" where
  "no_failure st = False"

definition fails_at :: "db_step \<Rightarrow> db_step \<Rightarrow> bool" where
  "fails_at x st = (st = x)"

definition ex_ilike :: "string \<Rightarrow> string \<Rightarrow> bool" where
  "ex_ilike s p = False"

text \<open>
  A store for the history reader: 26 result rows of one detection, of which the last has
  confidence 1/10 and the others 1/2; and the filter confidence \<open>\<ge>\<close> 50.
\<close>

definition ex_history_store :: store where
  "ex_history_store = \<lparr> detections = [ex_detection],
     licensePlates = [\<lparr> lp_id = 1, lp_plateNumber = ''51F-123.45'' \<rparr>],
     detectedPlateResults =
       map (\<lambda>i. ex_result\<lparr> r_id := i,
                           r_confidenceDetection := (if i = 26 then 1 / 10 else 1 / 2) \<rparr>)
         [1..<27] \<rparr>"

definition ex_filters :: "(string \<times> jsval) list" where
  "ex_filters = [(''confidence'', JArr [JNum 50, JUndefined])]"

text \<open>
  A store for the options reader, with a NULL and an empty OCR engine, a NULL vehicle
  category, a NULL source, and repeated values.
\<close>

definition ex_options_store :: store where
  "ex_options_store = \<lparr>
     detections = [ex_detection, ex_detection\<lparr>d_id := 2, d_source := Some ''camera''\<rparr>,
                   ex_detection\<lparr>d_id := 3, d_source := None\<rparr>],
     licensePlates = [\<lparr> lp_id = 1, lp_plateNumber = ''51F-123.45'' \<rparr>],
     detectedPlateResults =
       [ex_result\<lparr>r_typeVehicle := Some ''truck'', r_ocrEngineUsed := Some ''tesseract''\<rparr>,
        ex_result\<lparr>r_id := 2, r_typeVehicle := Some ''bus'', r_ocrEngineUsed := Some ''''\<rparr>,
        ex_result\<lparr>r_id := 3, r_typeVehicle := None, r_ocrEngineUsed := Some ''paddleocr''\<rparr>,
        ex_result\<lparr>r_id := 4, r_typeVehicle := Some ''truck'', r_ocrEngineUsed := None\<rparr>] \<rparr>"

text \<open>
  Two ways for the store to hand over the rows of the page query: as stored, and in
  reverse.
\<close>

definition as_stored :: "joined_row list \<Rightarrow> joined_row list" where
  "as_stored xs = xs"

definition ex_scan :: "joined_row list \<Rightarrow> joined_row list" where
  "ex_scan xs = rev xs"

section \<open>The filter compiler: what a filter contributes\<close>

lemma collectConditions_concat:
  "collectConditions tz acc fs = acc @ concat (map (filterConditions tz) fs)"
  by (induction fs arbitrary: acc) simp_all

lemma parseFilters_conditions:
  "parseFiltersToDrizzle tz fs =
     (if concat (map (filterConditions tz) fs) = [] then None
      else Some (And (concat (map (filterConditions tz) fs))))"
  by (simp add: parseFiltersToDrizzle_def collectConditions_concat Let_def)

lemma range_filter_conditions:
  "columnId = ''confidence'' \<or> columnId = ''processTime'' \<Longrightarrow>
   filterConditions tz (columnId, v) =
     (case pairValue v of
        Some (mn, mx) \<Rightarrow>
          if numberValue mn \<noteq> None \<or> numberValue mx \<noteq> None then
            pushAnd
              (minCondition columnId
                 (if columnId = ''confidence'' then ColConfidenceDetection else ColProcessTimeMs) mn
               @ maxCondition columnId
                 (if columnId = ''confidence'' then ColConfidenceDetection else ColProcessTimeMs) mx)
          else []
      | None \<Rightarrow> [])"
  by (auto simp: filterConditions_def js_get_def filterColumnMap_def split: option.splits)

lemma enum_filter_conditions:
  "filterConditions tz (''typeVehicle'', v) =
     (case stringValue v of None \<Rightarrow> []
      | Some s \<Rightarrow> if s \<in> set vehicleCategoryEnum then [Eq ColTypeVehicle (VText s)] else [])"
  "filterConditions tz (''source'', v) =
     (case stringValue v of None \<Rightarrow> []
      | Some s \<Rightarrow> if s \<in> set detectionSourceEnum then [Eq ColSource (VText s)] else [])"
  "filterConditions tz (''ocrEngine'', v) =
     (case stringValue v of None \<Rightarrow> []
      | Some s \<Rightarrow> if s \<noteq> [] then [Eq ColOcrEngineUsed (VText s)] else [])"
  by (auto simp: filterConditions_def js_get_def filterColumnMap_def Let_def
      vehicleCategoryEnum_def detectionSourceEnum_def split: option.splits)

lemma date_filter_conditions:
  "filterConditions tz (''date'', JObj fs) =
     (if map_of fs ''from'' \<noteq> None \<or> map_of fs ''to'' \<noteq> None then
        pushAnd (fromCondition tz ColDetectionTime (field fs ''from'')
                 @ toCondition tz ColDetectionTime (field fs ''to''))
      else [])"
  by (simp add: filterConditions_def js_get_def filterColumnMap_def)

lemma pairValue_Some: "pairValue v = Some (a, b) \<longleftrightarrow> v = JArr [a, b]"
  by (cases v rule: pairValue.cases) auto

text \<open>A timestamp lies in the day that starts at the floor of \<open>D\<close> iff both have the same day number.\<close>

lemma same_day:
  fixes m :: int
  assumes "0 < m"
  shows "(D - (D + z) mod m \<le> t \<and> t < D - (D + z) mod m + m)
         \<longleftrightarrow> (t + z) div m = (D + z) div m"
proof -
  define u where "u = t + z"
  define v where "v = D + z"
  have v: "v - v mod m = m * (v div m)" by (simp add: minus_mod_eq_mult_div)
  have "(D - (D + z) mod m \<le> t \<and> t < D - (D + z) mod m + m)
        \<longleftrightarrow> (v - v mod m \<le> u \<and> u < v - v mod m + m)"
    unfolding u_def v_def by auto
  also have "\<dots> \<longleftrightarrow> (m * (v div m) \<le> u \<and> u < m * (v div m) + m)" by (simp only: v)
  also have "\<dots> \<longleftrightarrow> u div m = v div m"
  proof
    assume a: "m * (v div m) \<le> u \<and> u < m * (v div m) + m"
    show "u div m = v div m"
      by (rule int_div_pos_eq[where r = "u - m * (v div m)"]) (use a in simp_all)
  next
    assume e: "u div m = v div m"
    have eq: "m * (u div m) = u - u mod m" by (simp add: minus_mod_eq_mult_div)
    have "0 \<le> u mod m" "u mod m < m" using assms by simp_all
    with eq have "m * (u div m) \<le> u" "u < m * (u div m) + m" by linarith+
    then show "m * (v div m) \<le> u \<and> u < m * (v div m) + m" using e by simp
  qed
  finally show ?thesis unfolding u_def v_def .
qed

subsection \<open>Date range (C5)\<close>

text \<open>
  Claim C5. A date filter \<open>{from, to}\<close> compiles to detectionTime \<open>\<ge>\<close> start-of-day(from)
  (when from is a Date) AND detectionTime \<open><\<close> start-of-day(to) + 1 day (when to is a
  Date), so the whole \<open>to\<close> day is included; with from = to = D the filter keeps exactly
  the rows whose detection time lies in the calendar day of D. Stated for a row with a
  detection, for any object \<open>fs\<close> as filter value; a row without a detection has no
  detection time and is not kept.
\<close>

theorem date_range_filter_inclusive_day:
  "(where_keeps il (parseFiltersToDrizzle tz [(''date'', JObj fs)]) (r, Some d, p) \<longleftrightarrow>
      (case dateValue (field fs ''from'') of
         None \<Rightarrow> True | Some a \<Rightarrow> startOfDay tz a \<le> d_detectionTime d)
      \<and> (case dateValue (field fs ''to'') of
         None \<Rightarrow> True | Some b \<Rightarrow> d_detectionTime d < startOfDay tz b + msPerDay))
   \<and> parseFiltersToDrizzle tz [(''date'', JObj [(''from'', JDate a), (''to'', JDate b)])]
       = Some (And [And [Gte ColDetectionTime (VTime (startOfDay tz a)),
                         Lt ColDetectionTime (VTime (addDays (startOfDay tz b) 1))]])
   \<and> (where_keeps il
         (parseFiltersToDrizzle tz [(''date'', JObj [(''from'', JDate D), (''to'', JDate D)])])
         (r, Some d, p) \<longleftrightarrow>
       (d_detectionTime d + tz) div msPerDay = (D + tz) div msPerDay)
   \<and> \<not> where_keeps il
         (parseFiltersToDrizzle tz [(''date'', JObj [(''from'', JDate D), (''to'', JDate D)])])
         (r, None, p)"
proof (intro conjI)
  show "\<not> where_keeps il
         (parseFiltersToDrizzle tz [(''date'', JObj [(''from'', JDate D), (''to'', JDate D)])])
         (r, None, p)"
    by (simp add: parseFilters_conditions date_filter_conditions pushAnd_def
        fromCondition_def toCondition_def where_keeps_def and3_def field_def)
  show "where_keeps il (parseFiltersToDrizzle tz [(''date'', JObj fs)]) (r, Some d, p) \<longleftrightarrow>
      (case dateValue (field fs ''from'') of
         None \<Rightarrow> True | Some a \<Rightarrow> startOfDay tz a \<le> d_detectionTime d)
      \<and> (case dateValue (field fs ''to'') of
         None \<Rightarrow> True | Some b \<Rightarrow> d_detectionTime d < startOfDay tz b + msPerDay)"
    by (auto simp: parseFilters_conditions date_filter_conditions pushAnd_def
        fromCondition_def toCondition_def where_keeps_def and3_def addDays_def field_def
        split: option.splits)
  show "parseFiltersToDrizzle tz [(''date'', JObj [(''from'', JDate a), (''to'', JDate b)])]
       = Some (And [And [Gte ColDetectionTime (VTime (startOfDay tz a)),
                         Lt ColDetectionTime (VTime (addDays (startOfDay tz b) 1))]])"
    by (simp add: parseFilters_conditions date_filter_conditions pushAnd_def
        fromCondition_def toCondition_def field_def)
  have "where_keeps il
         (parseFiltersToDrizzle tz [(''date'', JObj [(''from'', JDate D), (''to'', JDate D)])])
         (r, Some d, p) \<longleftrightarrow>
        (D - (D + tz) mod msPerDay \<le> d_detectionTime d
          \<and> d_detectionTime d < D - (D + tz) mod msPerDay + msPerDay)"
    by (simp add: parseFilters_conditions date_filter_conditions pushAnd_def
        fromCondition_def toCondition_def where_keeps_def and3_def addDays_def field_def
        startOfDay_def)
  also have "\<dots> \<longleftrightarrow> (d_detectionTime d + tz) div msPerDay = (D + tz) div msPerDay"
    by (rule same_day) (simp add: msPerDay_def)
  finally show "where_keeps il
         (parseFiltersToDrizzle tz [(''date'', JObj [(''from'', JDate D), (''to'', JDate D)])])
         (r, Some d, p) \<longleftrightarrow>
       (d_detectionTime d + tz) div msPerDay = (D + tz) div msPerDay" .
qed

text \<open>
  The day of 1700000000000 (UTC) runs from 1699920000000 up to, not including,
  1700006400000: its first and last millisecond are kept, the millisecond before and the
  one after are not.
\<close>

theorem date_range_filter_inclusive_day_witness:
  "where_keeps ex_ilike
     (parseFiltersToDrizzle 0
        [(''date'', JObj [(''from'', JDate 1700000000000), (''to'', JDate 1700000000000)])])
     (ex_result, Some (ex_detection\<lparr>d_detectionTime := 1699920000000\<rparr>), None)
   \<and> where_keeps ex_ilike
     (parseFiltersToDrizzle 0
        [(''date'', JObj [(''from'', JDate 1700000000000), (''to'', JDate 1700000000000)])])
     (ex_result, Some (ex_detection\<lparr>d_detectionTime := 1700006399999\<rparr>), None)
   \<and> \<not> where_keeps ex_ilike
     (parseFiltersToDrizzle 0
        [(''date'', JObj [(''from'', JDate 1700000000000), (''to'', JDate 1700000000000)])])
     (ex_result, Some (ex_detection\<lparr>d_detectionTime := 1700006400000\<rparr>), None)
   \<and> \<not> where_keeps ex_ilike
     (parseFiltersToDrizzle 0
        [(''date'', JObj [(''from'', JDate 1700000000000), (''to'', JDate 1700000000000)])])
     (ex_result, Some (ex_detection\<lparr>d_detectionTime := 1699919999999\<rparr>), None)"
  using
    date_range_filter_inclusive_day[where il = ex_ilike and tz = 0 and r = ex_result
      and p = None and D = 1700000000000
      and d = "ex_detection\<lparr>d_detectionTime := 1699920000000\<rparr>"
      and fs = "[]" and a = 0 and b = 0, THEN conjunct2, THEN conjunct2, THEN conjunct1]
    date_range_filter_inclusive_day[where il = ex_ilike and tz = 0 and r = ex_result
      and p = None and D = 1700000000000
      and d = "ex_detection\<lparr>d_detectionTime := 1700006399999\<rparr>"
      and fs = "[]" and a = 0 and b = 0, THEN conjunct2, THEN conjunct2, THEN conjunct1]
    date_range_filter_inclusive_day[where il = ex_ilike and tz = 0 and r = ex_result
      and p = None and D = 1700000000000
      and d = "ex_detection\<lparr>d_detectionTime := 1700006400000\<rparr>"
      and fs = "[]" and a = 0 and b = 0, THEN conjunct2, THEN conjunct2, THEN conjunct1]
    date_range_filter_inclusive_day[where il = ex_ilike and tz = 0 and r = ex_result
      and p = None and D = 1700000000000
      and d = "ex_detection\<lparr>d_detectionTime := 1699919999999\<rparr>"
      and fs = "[]" and a = 0 and b = 0, THEN conjunct2, THEN conjunct2, THEN conjunct1]
  by (simp add: msPerDay_def)

subsection \<open>Numeric ranges (C6)\<close>

text \<open>
  Claim C6. For confidence and processTime the compiler takes an optional min and an
  optional max, in one filter or in two filters with the same id, and the compiled
  predicate is the two-sided range (one-sided when only one bound is a number);
  confidence bounds are divided by 100, so min 50 keeps exactly the rows with stored
  confidence at least 1/2; processTime bounds are compared as they are (a detection
  without a processing time is not kept). The route merges the Min/Max query parameters
  into one filter per id.
\<close>

theorem numeric_range_filter:
  "(where_keeps il (parseFiltersToDrizzle tz [(''confidence'', JArr [JNum a, JNum b])]) (r, d, p)
      \<longleftrightarrow> a / 100 \<le> r_confidenceDetection r \<and> r_confidenceDetection r \<le> b / 100)
   \<and> (where_keeps il (parseFiltersToDrizzle tz
          [(''confidence'', JArr [JNum a, JUndefined]), (''confidence'', JArr [JUndefined, JNum b])])
        (r, d, p)
      \<longleftrightarrow> a / 100 \<le> r_confidenceDetection r \<and> r_confidenceDetection r \<le> b / 100)
   \<and> (where_keeps il (parseFiltersToDrizzle tz [(''confidence'', JArr [JNum a, JUndefined])]) (r, d, p)
      \<longleftrightarrow> a / 100 \<le> r_confidenceDetection r)
   \<and> (where_keeps il (parseFiltersToDrizzle tz [(''confidence'', JArr [JUndefined, JNum b])]) (r, d, p)
      \<longleftrightarrow> r_confidenceDetection r \<le> b / 100)
   \<and> (where_keeps il (parseFiltersToDrizzle tz [(''confidence'', JArr [JNum 50, JUndefined])]) (r, d, p)
      \<longleftrightarrow> 1 / 2 \<le> r_confidenceDetection r)
   \<and> (where_keeps il (parseFiltersToDrizzle tz [(''processTime'', JArr [JNum a, JNum b])]) (r, Some x, p)
      \<longleftrightarrow> (case d_processTimeMs x of None \<Rightarrow> False | Some n \<Rightarrow> a \<le> of_int n \<and> of_int n \<le> b))
   \<and> (where_keeps il (parseFiltersToDrizzle tz
          [(''processTime'', JArr [JNum a, JUndefined]), (''processTime'', JArr [JUndefined, JNum b])])
        (r, Some x, p)
      \<longleftrightarrow> (case d_processTimeMs x of None \<Rightarrow> False | Some n \<Rightarrow> a \<le> of_int n \<and> of_int n \<le> b))
   \<and> (where_keeps il (parseFiltersToDrizzle tz [(''processTime'', JArr [JNum a, JUndefined])])
        (r, Some x, p)
      \<longleftrightarrow> (case d_processTimeMs x of None \<Rightarrow> False | Some n \<Rightarrow> a \<le> of_int n))
   \<and> (where_keeps il (parseFiltersToDrizzle tz [(''processTime'', JArr [JUndefined, JNum b])])
        (r, Some x, p)
      \<longleftrightarrow> (case d_processTimeMs x of None \<Rightarrow> False | Some n \<Rightarrow> of_int n \<le> b))
   \<and> historyFilters [(''confidenceMin'', JNum a), (''confidenceMax'', JNum b)]
        = [(''confidence'', JArr [JNum a, JNum b])]
   \<and> historyFilters [(''confidenceMax'', JNum b), (''confidenceMin'', JNum a)]
        = [(''confidence'', JArr [JNum a, JNum b])]
   \<and> historyFilters [(''processTimeMin'', JNum a), (''processTimeMax'', JNum b)]
        = [(''processTime'', JArr [JNum a, JNum b])]"
  by (auto simp: parseFilters_conditions range_filter_conditions pushAnd_def
        minCondition_def maxCondition_def where_keeps_def and3_def
        historyFilters_def historyFilterStep_def rangeParam_def setIndex_def field_def
        split: option.splits)

theorem numeric_range_filter_witness:
  "where_keeps ex_ilike
     (parseFiltersToDrizzle 0 [(''confidence'', JArr [JNum 50, JUndefined])])
     (ex_result, Some ex_detection, None)
   \<and> \<not> where_keeps ex_ilike
     (parseFiltersToDrizzle 0 [(''confidence'', JArr [JNum 50, JUndefined])])
     (ex_result\<lparr>r_confidenceDetection := 49 / 100\<rparr>, Some ex_detection, None)
   \<and> where_keeps ex_ilike
     (parseFiltersToDrizzle 0 [(''processTime'', JArr [JNum 10, JNum 12])])
     (ex_result, Some ex_detection, None)
   \<and> \<not> where_keeps ex_ilike
     (parseFiltersToDrizzle 0 [(''processTime'', JArr [JNum 10, JNum 11])])
     (ex_result, Some ex_detection, None)"
proof -
  have conf: "where_keeps ex_ilike
      (parseFiltersToDrizzle 0 [(''confidence'', JArr [JNum 50, JUndefined])])
      (r, Some ex_detection, None) \<longleftrightarrow> 1 / 2 \<le> r_confidenceDetection r" for r
    using numeric_range_filter[where il = ex_ilike and tz = 0 and r = r
        and d = "Some ex_detection" and p = None]
    by blast
  have time: "where_keeps ex_ilike
      (parseFiltersToDrizzle 0 [(''processTime'', JArr [JNum a, JNum b])])
      (ex_result, Some ex_detection, None) \<longleftrightarrow>
      (case d_processTimeMs ex_detection of
         None \<Rightarrow> False | Some n \<Rightarrow> a \<le> of_int n \<and> of_int n \<le> b)" for a b
    using numeric_range_filter[where il = ex_ilike and tz = 0 and r = ex_result
        and x = ex_detection and p = None and a = a and b = b]
    by blast
  show ?thesis
    unfolding conf time by (simp add: ex_result_def ex_detection_def)
qed

subsection \<open>Enumerated strings (C7)\<close>

text \<open>
  Claim C7, as amended. For typeVehicle and source a string inside the field's
  enumeration compiles to an exact-equality condition and a string outside it (the empty
  string too) to no condition at all. For ocrEngine the code has no enumeration: every
  non-empty string compiles to an exact-equality condition, and only the empty string
  gives none. A value that is no string gives no condition for any of the three. The
  equality condition keeps exactly the rows whose column holds the value. The compiler
  is a total function: nothing is raised.
\<close>

theorem enumerated_filter_conditions:
  "filterConditions tz (''typeVehicle'', JStr v) =
     (if v \<in> set vehicleCategoryEnum then [Eq ColTypeVehicle (VText v)] else [])
   \<and> filterConditions tz (''source'', JStr v) =
     (if v \<in> set detectionSourceEnum then [Eq ColSource (VText v)] else [])
   \<and> filterConditions tz (''ocrEngine'', JStr v) =
     (if v \<noteq> [] then [Eq ColOcrEngineUsed (VText v)] else [])
   \<and> (where_keeps il (Some (And [Eq ColTypeVehicle (VText v)])) (r, d, p)
        \<longleftrightarrow> r_typeVehicle r = Some v)
   \<and> (where_keeps il (Some (And [Eq ColOcrEngineUsed (VText v)])) (r, d, p)
        \<longleftrightarrow> r_ocrEngineUsed r = Some v)
   \<and> (where_keeps il (Some (And [Eq ColSource (VText v)])) (r, Some x, p)
        \<longleftrightarrow> d_source x = Some v)
   \<and> (stringValue w = None \<longrightarrow>
         filterConditions tz (''typeVehicle'', w) = []
         \<and> filterConditions tz (''source'', w) = []
         \<and> filterConditions tz (''ocrEngine'', w) = [])"
proof (intro conjI)
  show "where_keeps il (Some (And [Eq ColTypeVehicle (VText v)])) (r, d, p)
        \<longleftrightarrow> r_typeVehicle r = Some v"
    by (cases "r_typeVehicle r") (auto simp: where_keeps_def and3_def)
  show "where_keeps il (Some (And [Eq ColOcrEngineUsed (VText v)])) (r, d, p)
        \<longleftrightarrow> r_ocrEngineUsed r = Some v"
    by (cases "r_ocrEngineUsed r") (auto simp: where_keeps_def and3_def)
  show "where_keeps il (Some (And [Eq ColSource (VText v)])) (r, Some x, p)
        \<longleftrightarrow> d_source x = Some v"
    by (cases "d_source x") (auto simp: where_keeps_def and3_def)
qed (simp_all add: enum_filter_conditions)

theorem enumerated_filter_conditions_witness:
  "filterConditions 0 (''typeVehicle'', JStr ''truck'') = [Eq ColTypeVehicle (VText ''truck'')]
   \<and> filterConditions 0 (''typeVehicle'', JStr ''tank'') = []
   \<and> filterConditions 0 (''source'', JStr ''camera'') = [Eq ColSource (VText ''camera'')]
   \<and> filterConditions 0 (''source'', JStr ''ftp'') = []
   \<and> filterConditions 0 (''ocrEngine'', JStr ''paddleocr'')
       = [Eq ColOcrEngineUsed (VText ''paddleocr'')]
   \<and> filterConditions 0 (''source'', JNum 3) = []"
  using enumerated_filter_conditions[where tz = 0 and v = "''truck''" and w = "JNum 3"]
    enumerated_filter_conditions[where tz = 0 and v = "''tank''"]
    enumerated_filter_conditions[where tz = 0 and v = "''camera''"]
    enumerated_filter_conditions[where tz = 0 and v = "''ftp''"]
    enumerated_filter_conditions[where tz = 0 and v = "''paddleocr''"]
  by (simp add: vehicleCategoryEnum_def detectionSourceEnum_def)

text \<open>
  The claim as first stated fails for the OCR engine: a value that no row holds and no
  enumeration of the schema lists still compiles to a condition, and that condition
  keeps no row of the example.
\<close>

theorem ocrEngine_unlisted_value_counterexample:
  "''no-such-engine'' \<notin> set vehicleCategoryEnum \<union> set detectionSourceEnum
   \<and> parseFiltersToDrizzle 0 [(''ocrEngine'', JStr ''no-such-engine'')]
       = Some (And [Eq ColOcrEngineUsed (VText ''no-such-engine'')])
   \<and> \<not> where_keeps ex_ilike
         (parseFiltersToDrizzle 0 [(''ocrEngine'', JStr ''no-such-engine'')])
         (ex_result, Some ex_detection, None)"
  by (simp add: parseFilters_conditions enum_filter_conditions where_keeps_def and3_def
      ex_result_def vehicleCategoryEnum_def detectionSourceEnum_def)

subsection \<open>Malformed range values (C10)\<close>

text \<open>
  Claim C10. A filter with id confidence or processTime whose value is not an array of
  exactly two elements of which at least one is a number pushes no condition: the
  compiled predicate is the one compiled without that filter, and nothing is raised.
\<close>

theorem malformed_range_filter_ignored:
  assumes "columnId = ''confidence'' \<or> columnId = ''processTime''"
    and "\<forall>a b. v = JArr [a, b] \<longrightarrow> numberValue a = None \<and> numberValue b = None"
  shows "filterConditions tz (columnId, v) = [] \<and>
         parseFiltersToDrizzle tz (pre @ (columnId, v) # post)
           = parseFiltersToDrizzle tz (pre @ post)"
proof -
  have "filterConditions tz (columnId, v) = []"
  proof (cases "pairValue v")
    case None
    then show ?thesis using assms(1) by (simp add: range_filter_conditions)
  next
    case (Some ab)
    obtain a b where ab: "ab = (a, b)" by (cases ab)
    have "v = JArr [a, b]" using Some ab by (simp add: pairValue_Some)
    with assms(2) have "numberValue a = None \<and> numberValue b = None" by blast
    then show ?thesis using assms(1) Some ab by (simp add: range_filter_conditions)
  qed
  then show ?thesis by (simp add: parseFilters_conditions)
qed

theorem malformed_range_filter_ignored_witness:
  "filterConditions 0 (''confidence'', JNum 50) = []
   \<and> filterConditions 0 (''processTime'', JObj [(''min'', JNum 1), (''max'', JNum 9)]) = []
   \<and> filterConditions 0 (''confidence'', JArr [JNum 1, JNum 2, JNum 3]) = []
   \<and> filterConditions 0 (''confidence'', JArr [JStr ''1'', JNull]) = []
   \<and> parseFiltersToDrizzle 0 [(''source'', JStr ''api''), (''confidence'', JNum 50)]
       = parseFiltersToDrizzle 0 [(''source'', JStr ''api'')]"
  using
    malformed_range_filter_ignored[where columnId = "''confidence''" and v = "JNum 50"
      and tz = 0 and pre = "[(''source'', JStr ''api'')]" and post = "[]"]
    malformed_range_filter_ignored[where columnId = "''processTime''"
      and v = "JObj [(''min'', JNum 1), (''max'', JNum 9)]" and tz = 0 and pre = "[]" and post = "[]"]
    malformed_range_filter_ignored[where columnId = "''confidence''"
      and v = "JArr [JNum 1, JNum 2, JNum 3]" and tz = 0 and pre = "[]" and post = "[]"]
    malformed_range_filter_ignored[where columnId = "''confidence''"
      and v = "JArr [JStr ''1'', JNull]" and tz = 0 and pre = "[]" and post = "[]"]
  by simp

section \<open>The sort compiler (C8)\<close>

lemma sortClause_plain:
  "k \<notin> set objectPrototypeKeys \<Longrightarrow>
   sortClause (k, dsc) =
     Inr (case map_of sortColumnMap k of
        None \<Rightarrow> Desc (SortColumn ColDetectionTime)
      | Some col \<Rightarrow> if dsc then Desc (SortColumn col) else Asc (SortColumn col))"
  by (simp add: sortClause_def js_get_def split: option.splits)

text \<open>The only clause that raises is the one for the id \<open>__proto__\<close>.\<close>

lemma sortClause_raises: "sortClause spec = Inl e \<longleftrightarrow> e = TypeError \<and> fst spec = ''__proto__''"
  by (cases e)
    (auto simp: sortClause_def js_get_def sortColumnMap_def objectPrototypeKeys_def
      split: option.splits jsprop.splits if_splits)

lemma sortClauses_Inr:
  "''__proto__'' \<notin> set (map fst sorting) \<Longrightarrow>
   sortClauses sorting = Inr (map (projr \<circ> sortClause) sorting)"
proof (induction sorting)
  case Nil
  then show ?case by simp
next
  case (Cons spec rest)
  then have "fst spec \<noteq> ''__proto__''" by auto
  then obtain t where t: "sortClause spec = Inr t"
    by (cases "sortClause spec") (auto simp: sortClause_raises)
  show ?case using Cons t by simp
qed

lemma sortClauses_Inl:
  "''__proto__'' \<in> set (map fst sorting) \<Longrightarrow> sortClauses sorting = Inl TypeError"
proof (induction sorting)
  case Nil
  then show ?case by simp
next
  case (Cons spec rest)
  show ?case
  proof (cases "sortClause spec")
    case (Inl e)
    then show ?thesis by (cases e) simp
  next
    case (Inr t)
    then have "fst spec \<noteq> ''__proto__''"
      using sortClause_raises[of spec TypeError] by auto
    then have "sortClauses rest = Inl TypeError" using Cons by auto
    then show ?thesis using Inr by simp
  qed
qed

lemma parseSorting_raises:
  "parseSortingToDrizzle sorting =
     (if ''__proto__'' \<in> set (map fst sorting) then Inl TypeError
      else if sorting = [] then Inr [Desc (SortColumn ColDetectionTime)]
      else Inr (map (projr \<circ> sortClause) sorting))"
  by (auto simp: parseSortingToDrizzle_def sortClauses_Inl sortClauses_Inr)

text \<open>
  What holds of the claim: no sort spec gives the single default term; otherwise, when
  no id is \<open>__proto__\<close>, there is one term per spec, in order, and a spec whose id is
  not the name of an inherited property yields its column in the requested direction, or
  detection time descending when \<open>sortColumnMap\<close> has no such key.
\<close>

lemma parseSorting_terms:
  "parseSortingToDrizzle [] = Inr [Desc (SortColumn ColDetectionTime)]
   \<and> (''__proto__'' \<notin> set (map fst (x # xs)) \<longrightarrow>
        (\<exists>ts. parseSortingToDrizzle (x # xs) = Inr ts \<and> length ts = length (x # xs)
           \<and> (\<forall>i < length (x # xs). fst ((x # xs) ! i) \<notin> set objectPrototypeKeys \<longrightarrow>
                ts ! i =
                  (case map_of sortColumnMap (fst ((x # xs) ! i)) of
                     None \<Rightarrow> Desc (SortColumn ColDetectionTime)
                   | Some col \<Rightarrow>
                       if snd ((x # xs) ! i) then Desc (SortColumn col)
                       else Asc (SortColumn col)))))"
proof (intro conjI impI)
  show "parseSortingToDrizzle [] = Inr [Desc (SortColumn ColDetectionTime)]"
    by (simp add: parseSortingToDrizzle_def)
  assume np: "''__proto__'' \<notin> set (map fst (x # xs))"
  let ?ts = "map (projr \<circ> sortClause) (x # xs)"
  have p: "parseSortingToDrizzle (x # xs) = Inr ?ts"
    using np by (simp add: parseSorting_raises)
  have "\<forall>i < length (x # xs). fst ((x # xs) ! i) \<notin> set objectPrototypeKeys \<longrightarrow>
                ?ts ! i =
                  (case map_of sortColumnMap (fst ((x # xs) ! i)) of
                     None \<Rightarrow> Desc (SortColumn ColDetectionTime)
                   | Some col \<Rightarrow>
                       if snd ((x # xs) ! i) then Desc (SortColumn col)
                       else Asc (SortColumn col))"
  proof (intro allI impI)
    fix i assume i: "i < length (x # xs)"
      and k: "fst ((x # xs) ! i) \<notin> set objectPrototypeKeys"
    have "sortClause ((x # xs) ! i) = Inr (case map_of sortColumnMap (fst ((x # xs) ! i)) of
                     None \<Rightarrow> Desc (SortColumn ColDetectionTime)
                   | Some col \<Rightarrow>
                       if snd ((x # xs) ! i) then Desc (SortColumn col)
                       else Asc (SortColumn col))"
      using sortClause_plain[OF k, of "snd ((x # xs) ! i)"] by simp
    then show "?ts ! i =
                  (case map_of sortColumnMap (fst ((x # xs) ! i)) of
                     None \<Rightarrow> Desc (SortColumn ColDetectionTime)
                   | Some col \<Rightarrow>
                       if snd ((x # xs) ! i) then Desc (SortColumn col)
                       else Asc (SortColumn col))"
      using i by (simp only: nth_map o_apply sum.sel)
  qed
  then show "\<exists>ts. parseSortingToDrizzle (x # xs) = Inr ts \<and> length ts = length (x # xs)
           \<and> (\<forall>i < length (x # xs). fst ((x # xs) ! i) \<notin> set objectPrototypeKeys \<longrightarrow>
                ts ! i =
                  (case map_of sortColumnMap (fst ((x # xs) ! i)) of
                     None \<Rightarrow> Desc (SortColumn ColDetectionTime)
                   | Some col \<Rightarrow>
                       if snd ((x # xs) ! i) then Desc (SortColumn col)
                       else Asc (SortColumn col)))"
    using p by (intro exI[of _ ?ts]) simp
qed

text \<open>
  Claim C8 says that a sort spec with an unrecognized id falls back to detection time
  descending for its position. The code tests \<open>!column\<close> on the result of
  \<open>sortColumnMap[sort.id]\<close>, which for the id \<open>constructor\<close> (no key of the map) is the
  inherited, truthy \<open>Object\<close> function: the term for that position is \<open>asc\<close> of that
  value, not the fallback. An id that is neither a key of the map nor an inherited name
  does fall back. For the id \<open>__proto__\<close> (no key of the map either) the inherited
  value is \<open>Object.prototype\<close>, on which \<open>asc\<close> raises: no term at all.
\<close>

theorem sort_inherited_id_not_default:
  "map_of sortColumnMap ''constructor'' = None
   \<and> parseSortingToDrizzle [(''constructor'', False)] = Inr [Asc (SortParam ''constructor'')]
   \<and> parseSortingToDrizzle [(''constructor'', False)] \<noteq> Inr [Desc (SortColumn ColDetectionTime)]
   \<and> parseSortingToDrizzle [(''no-such-column'', False)] = Inr [Desc (SortColumn ColDetectionTime)]
   \<and> map_of sortColumnMap ''__proto__'' = None
   \<and> parseSortingToDrizzle [(''__proto__'', False)] = Inl TypeError"
  by (simp add: parseSortingToDrizzle_def sortClause_def js_get_def sortColumnMap_def
      objectPrototypeKeys_def)

section \<open>The ingestion writer: what one call does to the store\<close>

lemma nextId_pos: "nextId ids \<noteq> 0"
  by (simp add: nextId_def)

lemma fold_max_ge: "(m::nat) \<le> fold max ids m"
  by (induction ids arbitrary: m) (auto intro: order_trans[OF max.cobounded2])

lemma fold_max_mem: "(i::nat) \<in> set ids \<Longrightarrow> i \<le> fold max ids m"
proof (induction ids arbitrary: m)
  case Nil
  then show ?case by simp
next
  case (Cons a ids)
  show ?case
  proof (cases "i = a")
    case True
    have "a \<le> max a m" by simp
    also have "\<dots> \<le> fold max ids (max a m)" by (rule fold_max_ge)
    finally show ?thesis using True by simp
  next
    case False
    with Cons show ?thesis by simp
  qed
qed

lemma nextId_fresh: "nextId ids \<notin> set ids"
proof
  assume "nextId ids \<in> set ids"
  then have "nextId ids \<le> fold max ids 0" by (rule fold_max_mem)
  then show False by (simp add: nextId_def)
qed

text \<open>The upsert only appends: one row for each plate number the table did not hold.\<close>

lemma upsert_appends:
  "\<exists>ps. upsertLicensePlates pns tbl = tbl @ ps
      \<and> distinct (map lp_plateNumber ps)
      \<and> set (map lp_plateNumber ps) = set pns - set (map lp_plateNumber tbl)
      \<and> 0 \<notin> set (map lp_id ps)"
proof (induction pns arbitrary: tbl)
  case Nil
  then show ?case by simp
next
  case (Cons pn pns)
  show ?case
  proof (cases "pn \<in> set (map lp_plateNumber tbl)")
    case True
    from Cons.IH[of tbl] obtain ps where ps: "upsertLicensePlates pns tbl = tbl @ ps"
      "distinct (map lp_plateNumber ps)"
      "set (map lp_plateNumber ps) = set pns - set (map lp_plateNumber tbl)"
      "0 \<notin> set (map lp_id ps)" by blast
    show ?thesis
      apply (rule exI[of _ ps])
      using True ps by auto
  next
    case False
    define row where "row = \<lparr>lp_id = nextId (map lp_id tbl), lp_plateNumber = pn\<rparr>"
    from Cons.IH[of "tbl @ [row]"] obtain ps where
      ps: "upsertLicensePlates pns (tbl @ [row]) = (tbl @ [row]) @ ps"
      "distinct (map lp_plateNumber ps)"
      "set (map lp_plateNumber ps) = set pns - set (map lp_plateNumber (tbl @ [row]))"
      "0 \<notin> set (map lp_id ps)" by blast
    have r: "lp_plateNumber row = pn" "lp_id row \<noteq> 0" by (simp_all add: row_def nextId_pos)
    have step: "upsertLicensePlates (pn # pns) tbl = upsertLicensePlates pns (tbl @ [row])"
      using False by (simp add: row_def)
    show ?thesis
      apply (rule exI[of _ "row # ps"])
      using False ps r step by auto
  qed
qed

lemma insertPlateResults_appends:
  "\<exists>rs. insertPlateResults xs tbl = tbl @ rs \<and> length rs = length xs
      \<and> (\<forall>i<length xs. rs ! i = (xs ! i)\<lparr>r_id := r_id (rs ! i)\<rparr>)"
proof (induction xs arbitrary: tbl)
  case Nil
  then show ?case by simp
next
  case (Cons x xs)
  define y where "y = x\<lparr>r_id := nextId (map r_id tbl)\<rparr>"
  from Cons.IH[of "tbl @ [y]"] obtain rs where
    rs: "insertPlateResults xs (tbl @ [y]) = (tbl @ [y]) @ rs"
    "length rs = length xs" "\<forall>i<length xs. rs ! i = (xs ! i)\<lparr>r_id := r_id (rs ! i)\<rparr>" by blast
  have "\<forall>i<length (x # xs). (y # rs) ! i = ((x # xs) ! i)\<lparr>r_id := r_id ((y # rs) ! i)\<rparr>"
  proof (intro allI impI)
    fix i assume "i < length (x # xs)"
    then show "(y # rs) ! i = ((x # xs) ! i)\<lparr>r_id := r_id ((y # rs) ! i)\<rparr>"
      using rs(3) by (cases i) (simp_all add: y_def)
  qed
  moreover have "insertPlateResults (x # xs) tbl = insertPlateResults xs (tbl @ [y])"
    by (simp add: y_def)
  ultimately show ?case
    apply (intro exI[of _ "y # rs"])
    using rs by simp
qed

lemma find_append_case:
  "find P (xs @ ys) = (case find P xs of None \<Rightarrow> find P ys | Some x \<Rightarrow> Some x)"
  by (induction xs) auto

text \<open>The lookup object after the loop over the fetched plates: the last row of a number wins.\<close>

lemma records_lookup:
  "map_of (fold (\<lambda>p recs. js_set recs (lp_plateNumber p) (lp_id p)) ps acc) pn =
     (if pn = ''__proto__'' then map_of acc pn
      else case find (\<lambda>p. lp_plateNumber p = pn) (rev ps) of
             None \<Rightarrow> map_of acc pn
           | Some p \<Rightarrow> Some (lp_id p))"
proof (induction ps arbitrary: acc)
  case Nil
  then show ?case by simp
next
  case (Cons p ps)
  show ?case
    unfolding fold_simps Cons.IH
    by (auto simp: js_set_def find_append_case split: option.splits)
qed

lemma saveTransaction_success:
  assumes "saveTransaction fails now resp dets source url s = Inr (i, tx)"
  shows "i = nextId (map d_id (detections s))
    \<and> detections tx = detections s @
        [\<lparr> d_id = i, d_source = Some source, d_imageUrl = url,
           d_processedImageUrl = processed_image_url resp, d_detectionTime = now,
           d_processTimeMs = map_option Math_round (processing_time_ms resp) \<rparr>]
    \<and> licensePlates tx = upsertLicensePlates (uniquePlateNumbersOf dets) (licensePlates s)
    \<and> detectedPlateResults tx =
        insertPlateResults
          (map (\<lambda>det. snd (detectedPlateData i
                  (licensePlateRecordsOf
                     (filter (\<lambda>p. lp_plateNumber p \<in> set (uniquePlateNumbersOf dets))
                        (upsertLicensePlates (uniquePlateNumbersOf dets) (licensePlates s))))
                  det)) dets)
          (detectedPlateResults s)
    \<and> \<not> list_ex (\<lambda>det. isInherited (fst (detectedPlateData i
                  (licensePlateRecordsOf
                     (filter (\<lambda>p. lp_plateNumber p \<in> set (uniquePlateNumbersOf dets))
                        (upsertLicensePlates (uniquePlateNumbersOf dets) (licensePlates s))))
                  det))) dets"
proof (cases "uniquePlateNumbersOf dets = []")
  case True
  have lr: "licensePlateRecordsOf [] = []" by (simp add: licensePlateRecordsOf_def)
  show ?thesis
    using assms True
    by (auto simp: saveTransaction_def insertDetection_def Let_def lr list_ex_iff o_def
        split: if_splits)
next
  case False
  show ?thesis
    using assms False
    by (auto simp: saveTransaction_def insertDetection_def selectLicensePlates_def Let_def
        list_ex_iff o_def split: if_splits)
qed

lemma saveTransaction_failure:
  assumes "dets \<noteq> []"
    and "fails InsertDetection
         \<or> (uniquePlateNumbersOf dets \<noteq> []
              \<and> (fails UpsertLicensePlates \<or> fails SelectLicensePlates))
         \<or> fails InsertPlateResults"
  shows "\<exists>e. saveTransaction fails now resp dets source url s = Inl e"
  using assms by (auto simp: saveTransaction_def Let_def)

lemma ingest_failure:
  assumes "api_detections resp = Some dets" "dets \<noteq> []"
    and "fst (db_transaction fails (saveTransaction fails now resp dets source url) s) = Inl e"
  shows "insertDetectionAndResults fails now s (Some resp) source url = (Inl SaveFailed, s)"
  using assms
  by (auto simp: insertDetectionAndResults_def db_transaction_def
      split: sum.splits prod.splits if_splits)

lemma ingest_success:
  assumes "api_detections resp = Some dets" "dets \<noteq> []"
    and "insertDetectionAndResults fails now s (Some resp) source url = (Inr res, s')"
  shows "\<exists>i. saveTransaction fails now resp dets source url s = Inr (i, s')
      \<and> res = findCreatedDetection s' i"
  using assms
  by (auto simp: insertDetectionAndResults_def db_transaction_def
      split: sum.splits prod.splits if_splits)

text \<open>The example call, with no failure: one detection, one new plate, three results.\<close>

lemma ex_ingest:
  "insertDetectionAndResults no_failure 1700000000500 ex_store (Some ex_response) ''api'' ''b.jpg''
     = (Inr (Some (ex_new_detection, ex_new_results)), ex_store_after)"
  by code_simp

subsection \<open>Empty responses (C3)\<close>

text \<open>
  Claim C3. When the response is missing, or its detection list is missing or empty,
  insertDetectionAndResults returns null and writes nothing: the store is unchanged,
  whatever statements would fail.
\<close>

theorem empty_response_writes_nothing:
  "insertDetectionAndResults fails now s None source url = (Inr None, s)
   \<and> insertDetectionAndResults fails now s (Some (resp\<lparr>api_detections := None\<rparr>)) source url
       = (Inr None, s)
   \<and> insertDetectionAndResults fails now s (Some (resp\<lparr>api_detections := Some []\<rparr>)) source url
       = (Inr None, s)"
  by (simp add: insertDetectionAndResults_def)

subsection \<open>Rollback (C1)\<close>

text \<open>
  Claim C1. For a response with at least one detection, if any step of the ingestion
  transaction fails (the insert of the detection, the upsert or the re-read of the
  plates when there are plate numbers, the insert of the results, the commit, or
  whatever else makes the callback throw), the call ends in the single error
  SaveFailed, which is not the null return, and the store is exactly the store before
  the call: no row of any of the three tables persists.
\<close>

theorem failed_transaction_rolls_back:
  assumes "api_detections resp = Some dets" and "dets \<noteq> []"
  shows "(fails InsertDetection
          \<or> (uniquePlateNumbersOf dets \<noteq> []
               \<and> (fails UpsertLicensePlates \<or> fails SelectLicensePlates))
          \<or> fails InsertPlateResults
          \<or> fails Commit
          \<or> (\<exists>e. saveTransaction fails now resp dets source url s = Inl e)
        \<longrightarrow> insertDetectionAndResults fails now s (Some resp) source url = (Inl SaveFailed, s))
      \<and> (Inl SaveFailed :: query_error + (detection \<times> detectedPlateResult list) option) \<noteq> Inr None"
proof (intro conjI impI)
  assume a: "fails InsertDetection
          \<or> (uniquePlateNumbersOf dets \<noteq> []
               \<and> (fails UpsertLicensePlates \<or> fails SelectLicensePlates))
          \<or> fails InsertPlateResults
          \<or> fails Commit
          \<or> (\<exists>e. saveTransaction fails now resp dets source url s = Inl e)"
  have "\<exists>e. fst (db_transaction fails (saveTransaction fails now resp dets source url) s) = Inl e"
  proof (cases "saveTransaction fails now resp dets source url s")
    case (Inl e)
    then show ?thesis by (simp add: db_transaction_def)
  next
    case (Inr r)
    then have "fails Commit"
      using a saveTransaction_failure[OF assms(2), of fails now resp source url s] by auto
    then show ?thesis using Inr by (simp add: db_transaction_def split: prod.splits)
  qed
  then show "insertDetectionAndResults fails now s (Some resp) source url = (Inl SaveFailed, s)"
    using ingest_failure[OF assms] by blast
qed simp

text \<open>
  The example call changes all three tables when nothing fails; when the insert of the
  results fails (after the detection and the new plate went into the working copy), or
  the commit does, the store is the one before the call.
\<close>

theorem failed_transaction_rolls_back_witness:
  "insertDetectionAndResults (fails_at InsertPlateResults) 1700000000500 ex_store
       (Some ex_response) ''api'' ''b.jpg'' = (Inl SaveFailed, ex_store)
   \<and> insertDetectionAndResults (fails_at Commit) 1700000000500 ex_store
       (Some ex_response) ''api'' ''b.jpg'' = (Inl SaveFailed, ex_store)
   \<and> snd (insertDetectionAndResults no_failure 1700000000500 ex_store
       (Some ex_response) ''api'' ''b.jpg'') = ex_store_after
   \<and> ex_store_after \<noteq> ex_store"
proof -
  have d: "api_detections ex_response = Some ex_dets" "ex_dets \<noteq> []"
    by (simp_all add: ex_response_def ex_dets_def)
  have n: "ex_store_after \<noteq> ex_store"
    by (simp add: ex_store_after_def ex_store_def)
  show ?thesis
    using failed_transaction_rolls_back[OF d, of "fails_at InsertPlateResults"]
      failed_transaction_rolls_back[OF d, of "fails_at Commit"] n
    by (simp add: ex_ingest fails_at_def)
qed

text \<open>
  The read-back \<open>findFirst\<close> runs after the commit, outside the transaction: when it
  fails the same error is thrown, and the rows of the call stay.
\<close>

lemma failed_read_back_keeps_rows:
  "insertDetectionAndResults (fails_at FindCreatedDetection) 1700000000500 ex_store
       (Some ex_response) ''api'' ''b.jpg'' = (Inl SaveFailed, ex_store_after)"
  by code_simp

subsection \<open>Rows created by a successful call (C2)\<close>

lemma find_Some_mem: "find P xs = Some x \<Longrightarrow> x \<in> set xs \<and> P x"
  by (induction xs) (auto split: if_splits)

lemma link_for_plate:
  assumes pn: "pn \<in> set U" "pn \<noteq> []"
    and mem: "pn \<in> set (map lp_plateNumber plates)"
    and ids: "0 \<notin> set (map lp_id plates)"
    and ni: "\<not> isInherited (licensePlateIdOf
               (licensePlateRecordsOf (filter (\<lambda>p. lp_plateNumber p \<in> set U) plates)) pn)"
  shows "\<exists>p\<in>set plates. lp_plateNumber p = pn \<and>
           licensePlateIdOf
             (licensePlateRecordsOf (filter (\<lambda>p. lp_plateNumber p \<in> set U) plates)) pn
           = Own (lp_id p)"
proof -
  define fetched where "fetched = filter (\<lambda>p. lp_plateNumber p \<in> set U) plates"
  define recs where "recs = licensePlateRecordsOf fetched"
  have look: "map_of recs pn =
     (if pn = ''__proto__'' then None
      else case find (\<lambda>p. lp_plateNumber p = pn) (rev fetched) of
             None \<Rightarrow> None | Some p \<Rightarrow> Some (lp_id p))"
    unfolding recs_def licensePlateRecordsOf_def
    by (auto simp: records_lookup split: option.splits)
  have notproto: "pn \<noteq> ''__proto__''"
  proof
    assume e: "pn = ''__proto__''"
    then have "js_get recs pn = Inherited pn"
      using look by (simp add: js_get_def objectPrototypeKeys_def)
    then have "isInherited (licensePlateIdOf recs pn)"
      using pn(2) by (simp add: licensePlateIdOf_def)
    then show False using ni unfolding recs_def fetched_def by simp
  qed
  from mem obtain q where q: "q \<in> set plates" "lp_plateNumber q = pn" by auto
  then have "q \<in> set (rev fetched)" using pn(1) by (simp add: fetched_def)
  then have "find (\<lambda>p. lp_plateNumber p = pn) (rev fetched) \<noteq> None"
    using q(2) by (auto simp: find_None_iff)
  then obtain p where p: "find (\<lambda>p. lp_plateNumber p = pn) (rev fetched) = Some p" by auto
  then have pp: "p \<in> set (rev fetched)" "lp_plateNumber p = pn"
    by (auto dest: find_Some_mem)
  then have pin: "p \<in> set plates" by (simp add: fetched_def)
  then have nz: "lp_id p \<noteq> 0" using ids by auto
  have "map_of recs pn = Some (lp_id p)" using look notproto p by simp
  then have "licensePlateIdOf recs pn = Own (lp_id p)"
    using pn(2) nz by (simp add: licensePlateIdOf_def js_get_def)
  then show ?thesis using pin pp(2) unfolding recs_def fetched_def by blast
qed

lemma unique_set:
  "set (uniquePlateNumbersOf dets) =
     {pn \<in> set (map plate_number dets). pn \<noteq> [] \<and> trim pn \<noteq> []}"
  by (auto simp: uniquePlateNumbersOf_def)

lemma unique_distinct: "distinct (uniquePlateNumbersOf dets)"
  by (simp add: uniquePlateNumbersOf_def)

text \<open>
  Claim C2. A successful call for a response with n \<open>\<ge>\<close> 1 detections appends exactly
  one detection row (whatever the store holds already: detections are never
  deduplicated) and exactly n result rows, one per input detection, in order, linked to
  the new detection; it appends one license plate row for each distinct plate number of
  the response that is neither empty nor blank and that the table does not hold yet, and
  none for a plate number already present. When the stored plate ids are nonzero (they
  come from a serial), the result row of such a plate number links to the row of that
  number, which is the existing row when there is one.
\<close>

theorem successful_ingestion_rows:
  assumes resp: "api_detections resp = Some dets" and ne: "dets \<noteq> []"
    and ok: "insertDetectionAndResults fails now s (Some resp) source url = (Inr res, s')"
  shows "\<exists>d rs ps.
      detections s' = detections s @ [d]
    \<and> detectedPlateResults s' = detectedPlateResults s @ rs
    \<and> length rs = length dets
    \<and> (\<forall>i<length dets. r_detectionId (rs ! i) = d_id d
          \<and> r_plateNumber (rs ! i) = plate_number (dets ! i))
    \<and> licensePlates s' = licensePlates s @ ps
    \<and> distinct (map lp_plateNumber ps)
    \<and> set (map lp_plateNumber ps)
        = {pn \<in> set (map plate_number dets). pn \<noteq> [] \<and> trim pn \<noteq> []}
          - set (map lp_plateNumber (licensePlates s))
    \<and> (0 \<notin> set (map lp_id (licensePlates s)) \<longrightarrow>
         (\<forall>i<length dets. plate_number (dets ! i) \<noteq> [] \<and> trim (plate_number (dets ! i)) \<noteq> [] \<longrightarrow>
            (\<exists>p\<in>set (licensePlates s'). lp_plateNumber p = plate_number (dets ! i)
                \<and> r_licensePlateId (rs ! i) = Some (lp_id p)
                \<and> (plate_number (dets ! i) \<in> set (map lp_plateNumber (licensePlates s))
                     \<longrightarrow> p \<in> set (licensePlates s)))))"
proof -
  define U where "U = uniquePlateNumbersOf dets"
  define plates where "plates = upsertLicensePlates U (licensePlates s)"
  define recs where "recs = licensePlateRecordsOf (filter (\<lambda>p. lp_plateNumber p \<in> set U) plates)"
  from ingest_success[OF resp ne ok] obtain i where
    tx: "saveTransaction fails now resp dets source url s = Inr (i, s')" by blast
  define d where "d = \<lparr> d_id = i, d_source = Some source, d_imageUrl = url,
           d_processedImageUrl = processed_image_url resp, d_detectionTime = now,
           d_processTimeMs = map_option Math_round (processing_time_ms resp) \<rparr>"
  from saveTransaction_success[OF tx] have
    dets': "detections s' = detections s @ [d]"
    and lps: "licensePlates s' = plates"
    and res': "detectedPlateResults s' =
        insertPlateResults (map (\<lambda>det. snd (detectedPlateData i recs det)) dets)
          (detectedPlateResults s)"
    and ni: "\<not> list_ex (\<lambda>det. isInherited (fst (detectedPlateData i recs det))) dets"
    unfolding d_def U_def plates_def recs_def by blast+
  from upsert_appends[of U "licensePlates s"] obtain ps where
    ps: "plates = licensePlates s @ ps" "distinct (map lp_plateNumber ps)"
      "set (map lp_plateNumber ps) = set U - set (map lp_plateNumber (licensePlates s))"
      "0 \<notin> set (map lp_id ps)"
    unfolding plates_def by blast
  from insertPlateResults_appends[of "map (\<lambda>det. snd (detectedPlateData i recs det)) dets"
      "detectedPlateResults s"]
  obtain rs where
    rs: "detectedPlateResults s' = detectedPlateResults s @ rs" "length rs = length dets"
      "\<forall>k<length dets. rs ! k = (snd (detectedPlateData i recs (dets ! k)))\<lparr>r_id := r_id (rs ! k)\<rparr>"
    unfolding res' by auto
  have fields: "\<forall>k<length dets. r_detectionId (rs ! k) = d_id d
          \<and> r_plateNumber (rs ! k) = plate_number (dets ! k)"
  proof (intro allI impI)
    fix k assume k: "k < length dets"
    have e: "rs ! k = (snd (detectedPlateData i recs (dets ! k)))\<lparr>r_id := r_id (rs ! k)\<rparr>"
      using rs(3) k by blast
    have "r_detectionId ((snd (detectedPlateData i recs (dets ! k)))\<lparr>r_id := x\<rparr>) = d_id d
        \<and> r_plateNumber ((snd (detectedPlateData i recs (dets ! k)))\<lparr>r_id := x\<rparr>)
            = plate_number (dets ! k)" for x
      by (simp add: detectedPlateData_def Let_def d_def)
    then show "r_detectionId (rs ! k) = d_id d \<and> r_plateNumber (rs ! k) = plate_number (dets ! k)"
      using e by metis
  qed
  have links: "\<forall>k<length dets. plate_number (dets ! k) \<noteq> [] \<and> trim (plate_number (dets ! k)) \<noteq> [] \<longrightarrow>
            (\<exists>p\<in>set (licensePlates s'). lp_plateNumber p = plate_number (dets ! k)
                \<and> r_licensePlateId (rs ! k) = Some (lp_id p)
                \<and> (plate_number (dets ! k) \<in> set (map lp_plateNumber (licensePlates s))
                     \<longrightarrow> p \<in> set (licensePlates s)))"
    if z: "0 \<notin> set (map lp_id (licensePlates s))"
  proof (intro allI impI)
    fix k assume k: "k < length dets"
      and nb: "plate_number (dets ! k) \<noteq> [] \<and> trim (plate_number (dets ! k)) \<noteq> []"
    define pn where "pn = plate_number (dets ! k)"
    have inU: "pn \<in> set U" using k nb unfolding U_def unique_set pn_def by auto
    have mem: "pn \<in> set (map lp_plateNumber plates)"
      using ps(1,3) inU by auto
    have ids: "0 \<notin> set (map lp_id plates)" using ps(1,4) z by auto
    have "\<not> isInherited (fst (detectedPlateData i recs (dets ! k)))"
      using ni k by (auto simp: list_ex_iff)
    then have ni': "\<not> isInherited (licensePlateIdOf recs pn)"
      by (simp add: detectedPlateData_def Let_def pn_def)
    from link_for_plate[OF inU _ mem ids ni'[unfolded recs_def]] nb
    obtain p where p: "p \<in> set plates" "lp_plateNumber p = pn"
      "licensePlateIdOf recs pn = Own (lp_id p)"
      unfolding pn_def recs_def by blast
    have e: "rs ! k = (snd (detectedPlateData i recs (dets ! k)))\<lparr>r_id := r_id (rs ! k)\<rparr>"
      using rs(3) k by blast
    have "r_licensePlateId ((snd (detectedPlateData i recs (dets ! k)))\<lparr>r_id := x\<rparr>)
            = Some (lp_id p)" for x
      using p(3) by (simp add: detectedPlateData_def Let_def pn_def)
    then have l: "r_licensePlateId (rs ! k) = Some (lp_id p)" using e by metis
    have old: "p \<in> set (licensePlates s)" if "pn \<in> set (map lp_plateNumber (licensePlates s))"
    proof (rule ccontr)
      assume "p \<notin> set (licensePlates s)"
      then have "p \<in> set ps" using p(1) ps(1) by auto
      then have "pn \<in> set (map lp_plateNumber ps)" using p(2) by auto
      then show False using ps(3) that by auto
    qed
    show "\<exists>p\<in>set (licensePlates s'). lp_plateNumber p = plate_number (dets ! k)
                \<and> r_licensePlateId (rs ! k) = Some (lp_id p)
                \<and> (plate_number (dets ! k) \<in> set (map lp_plateNumber (licensePlates s))
                     \<longrightarrow> p \<in> set (licensePlates s))"
      using p l old unfolding lps pn_def by blast
  qed
  show ?thesis
    apply (rule exI[of _ d], rule exI[of _ rs], rule exI[of _ ps])
    using dets' rs(1,2) fields lps ps(1,2,3) links unfolding U_def unique_set
    by (intro conjI impI) auto
qed

lemma ex_ingest_again:
  "length (detections (snd (insertDetectionAndResults no_failure 1700000000900 ex_store_after
       (Some ex_response) ''api'' ''b.jpg''))) = 3
   \<and> licensePlates (snd (insertDetectionAndResults no_failure 1700000000900 ex_store_after
       (Some ex_response) ''api'' ''b.jpg'')) = licensePlates ex_store_after
   \<and> length (detectedPlateResults (snd (insertDetectionAndResults no_failure 1700000000900
       ex_store_after (Some ex_response) ''api'' ''b.jpg''))) = 7"
  by code_simp

text \<open>
  The example call appends one detection, three results and one plate; a second call
  with the same response appends a second detection and no plate.
\<close>

theorem successful_ingestion_rows_witness:
  "api_detections ex_response = Some ex_dets \<and> ex_dets \<noteq> []
   \<and> insertDetectionAndResults no_failure 1700000000500 ex_store (Some ex_response)
        ''api'' ''b.jpg'' = (Inr (Some (ex_new_detection, ex_new_results)), ex_store_after)
   \<and> 0 \<notin> set (map lp_id (licensePlates ex_store))
   \<and> (\<exists>d rs ps.
        detections ex_store_after = detections ex_store @ [d]
      \<and> detectedPlateResults ex_store_after = detectedPlateResults ex_store @ rs
      \<and> length rs = length ex_dets
      \<and> licensePlates ex_store_after = licensePlates ex_store @ ps
      \<and> distinct (map lp_plateNumber ps)
      \<and> (\<forall>i<length ex_dets.
            plate_number (ex_dets ! i) \<noteq> [] \<and> trim (plate_number (ex_dets ! i)) \<noteq> [] \<longrightarrow>
            (\<exists>p\<in>set (licensePlates ex_store_after).
                lp_plateNumber p = plate_number (ex_dets ! i)
                \<and> r_licensePlateId (rs ! i) = Some (lp_id p)
                \<and> (plate_number (ex_dets ! i) \<in> set (map lp_plateNumber (licensePlates ex_store))
                     \<longrightarrow> p \<in> set (licensePlates ex_store)))))
   \<and> length (licensePlates ex_store_after) = length (licensePlates ex_store) + 1
   \<and> map r_licensePlateId ex_new_results = [Some 1, Some 2, None]
   \<and> length (detections (snd (insertDetectionAndResults no_failure 1700000000900 ex_store_after
       (Some ex_response) ''api'' ''b.jpg''))) = length (detections ex_store) + 2
   \<and> licensePlates (snd (insertDetectionAndResults no_failure 1700000000900 ex_store_after
       (Some ex_response) ''api'' ''b.jpg'')) = licensePlates ex_store_after"
proof -
  have d: "api_detections ex_response = Some ex_dets" "ex_dets \<noteq> []"
    by (simp_all add: ex_response_def ex_dets_def)
  have z: "0 \<notin> set (map lp_id (licensePlates ex_store))"
    by (simp add: ex_store_def)
  have b: "length (licensePlates ex_store_after) = length (licensePlates ex_store) + 1"
    "map r_licensePlateId ex_new_results = [Some 1, Some 2, None]"
    "length (detections ex_store) = 1"
    by (simp_all add: ex_store_after_def ex_store_def ex_new_results_def)
  have e: "\<exists>d rs ps.
        detections ex_store_after = detections ex_store @ [d]
      \<and> detectedPlateResults ex_store_after = detectedPlateResults ex_store @ rs
      \<and> length rs = length ex_dets
      \<and> licensePlates ex_store_after = licensePlates ex_store @ ps
      \<and> distinct (map lp_plateNumber ps)
      \<and> (\<forall>i<length ex_dets.
            plate_number (ex_dets ! i) \<noteq> [] \<and> trim (plate_number (ex_dets ! i)) \<noteq> [] \<longrightarrow>
            (\<exists>p\<in>set (licensePlates ex_store_after).
                lp_plateNumber p = plate_number (ex_dets ! i)
                \<and> r_licensePlateId (rs ! i) = Some (lp_id p)
                \<and> (plate_number (ex_dets ! i) \<in> set (map lp_plateNumber (licensePlates ex_store))
                     \<longrightarrow> p \<in> set (licensePlates ex_store))))"
    using successful_ingestion_rows[OF d ex_ingest] z by blast
  show ?thesis
    using d z b e ex_ingest ex_ingest_again by simp
qed

section \<open>The history reader (C4)\<close>

lemma eval_cond_plate:
  "eval_cond il (r, d, p) c = eval_cond il (r, d, p') c"
proof (induction c)
  case (ILike x1 x2)
  then show ?case by (cases x1) simp_all
next
  case (Eq x1 x2)
  then show ?case by (cases x1) simp_all
next
  case (Gte x1 x2)
  then show ?case by (cases x1) simp_all
next
  case (Lte x1 x2)
  then show ?case by (cases x1) simp_all
next
  case (Lt x1 x2)
  then show ?case by (cases x1) simp_all
next
  case (And cs)
  then have meq: "map (eval_cond il (r, d, p)) cs = map (eval_cond il (r, d, p')) cs"
    by (intro map_cong[OF refl]) auto
  show ?case by (simp only: eval_cond.simps meq)
qed

lemma where_keeps_plate:
  "where_keeps il w (r, d, p) = where_keeps il w (r, d, p')"
  by (cases w) (simp_all add: where_keeps_def eval_cond_plate[of il r d p _ p'])

lemma filter_key_distinct:
  "distinct (map f xs) \<Longrightarrow> length (filter (\<lambda>x. f x = a) xs) \<le> 1"
proof (induction xs)
  case Nil
  then show ?case by simp
next
  case (Cons x xs)
  show ?case
  proof (cases "f x = a")
    case True
    then have "a \<notin> f ` set xs" using Cons.prems by auto
    then have "filter (\<lambda>x. f x = a) xs = []" by (auto simp: filter_empty_conv)
    then show ?thesis using True by simp
  next
    case False
    then show ?thesis using Cons by simp
  qed
qed

lemma joinLicensePlates_single:
  assumes "distinct (map lp_id (licensePlates s))"
  shows "\<exists>p. joinLicensePlates s rd = [(fst rd, snd rd, p)]"
proof (cases "r_licensePlateId (fst rd)")
  case None
  then show ?thesis by (simp add: joinLicensePlates_def)
next
  case (Some i)
  have eq: "filter (\<lambda>p. Some (lp_id p) = r_licensePlateId (fst rd)) (licensePlates s)
        = filter (\<lambda>p. lp_id p = i) (licensePlates s)"
    using Some by (auto intro: filter_cong)
  have "length (filter (\<lambda>p. lp_id p = i) (licensePlates s)) \<le> 1"
    using assms by (rule filter_key_distinct)
  then show ?thesis
    unfolding joinLicensePlates_def eq
    by (cases "filter (\<lambda>p. lp_id p = i) (licensePlates s)") (auto split: list.splits)
qed

lemma count_concat_single:
  assumes "\<And>x. \<exists>p. g x = [(fst x, snd x, p)]"
  shows "length (filter (where_keeps il w) (concat (map g xs)))
       = length (filter (where_keeps il w) (map (\<lambda>x. (fst x, snd x, None)) xs))"
proof (induction xs)
  case Nil
  then show ?case by simp
next
  case (Cons x xs)
  from assms[of x] obtain p where p: "g x = [(fst x, snd x, p)]" by blast
  have "where_keeps il w (fst x, snd x, p) = where_keeps il w (fst x, snd x, None)"
    by (rule where_keeps_plate)
  then show ?case using Cons p by simp
qed

lemma count_query_agrees:
  assumes "distinct (map lp_id (licensePlates s))"
  shows "length (filter (where_keeps il w) (countQueryRows s))
       = length (filter (where_keeps il w) (baseQuery s))"
  unfolding countQueryRows_def baseQuery_def
  by (rule count_concat_single[symmetric]) (rule joinLicensePlates_single[OF assms])

subsection \<open>ORDER BY sorts\<close>

text \<open>
  The comparison of two values is a strict linear order, so the comparison of two rows
  by a list of terms is total and transitive, and \<open>order_by\<close> returns its input
  rearranged so that no row comes after a row it has to precede.
\<close>

lemma val_before_irrefl: "\<not> val_before a a"
  by (cases a) auto

lemma val_before_trans: "val_before a b \<Longrightarrow> val_before b c \<Longrightarrow> val_before a c"
  by (cases a; cases b; cases c) auto

lemma val_before_total: "a \<noteq> b \<Longrightarrow> val_before a b \<or> val_before b a"
  by (cases a; cases b) auto

lemma term_before_trans: "term_before t a b \<Longrightarrow> term_before t b c \<Longrightarrow> term_before t a c"
  by (cases t) (auto intro: val_before_trans)

lemma term_before_asym: "term_before t a b \<Longrightarrow> \<not> term_before t b a"
  by (cases t) (auto dest: val_before_trans simp: val_before_irrefl)

lemma term_tie:
  assumes "\<not> term_before t a b" "\<not> term_before t b a"
  shows "term_before t a c = term_before t b c" "term_before t c a = term_before t c b"
proof -
  obtain k where "t = Asc k \<or> t = Desc k" by (cases t) auto
  moreover have "order_val k a = order_val k b" if "t = Asc k \<or> t = Desc k" for k
  proof (rule ccontr)
    assume "order_val k a \<noteq> order_val k b"
    then have "val_before (order_val k a) (order_val k b)
               \<or> val_before (order_val k b) (order_val k a)"
      by (rule val_before_total)
    then show False using assms that by auto
  qed
  ultimately show "term_before t a c = term_before t b c" "term_before t c a = term_before t c b"
    by auto
qed

lemma row_le_total: "row_le ts a b \<or> row_le ts b a"
  by (induction ts) auto

lemma row_le_trans: "row_le ts a b \<Longrightarrow> row_le ts b c \<Longrightarrow> row_le ts a c"
proof (induction ts)
  case Nil
  then show ?case by simp
next
  case (Cons t ts)
  show ?case
  proof (cases "term_before t a b")
    case ab: True
    show ?thesis
    proof (cases "term_before t b c")
      case True
      then show ?thesis using ab term_before_trans by auto
    next
      case False
      then have "\<not> term_before t c b" using Cons.prems(2) by (auto split: if_splits)
      then have "term_before t a c" using ab False term_tie(2)[of t b c a] by simp
      then show ?thesis by simp
    qed
  next
    case nab: False
    then have nba: "\<not> term_before t b a" and r1: "row_le ts a b"
      using Cons.prems(1) by (auto split: if_splits)
    show ?thesis
    proof (cases "term_before t b c")
      case True
      then have "term_before t a c" using nab nba term_tie(1)[of t a b c] by simp
      then show ?thesis by simp
    next
      case False
      then have ncb: "\<not> term_before t c b" and r2: "row_le ts b c"
        using Cons.prems(2) by (auto split: if_splits)
      have "\<not> term_before t a c" "\<not> term_before t c a"
        using nab nba False ncb term_tie[of t a b c] by simp_all
      then show ?thesis using Cons.IH[OF r1 r2] by simp
    qed
  qed
qed

lemma set_insert_row: "set (insert_row ts x ys) = insert x (set ys)"
  by (induction ys) auto

lemma mset_insert_row: "mset (insert_row ts x ys) = add_mset x (mset ys)"
  by (induction ys) auto

lemma mset_order_by: "mset (order_by ts xs) = mset xs"
  by (induction xs) (simp_all add: order_by_def mset_insert_row)

lemma length_order_by: "length (order_by ts xs) = length xs"
  by (metis mset_order_by size_mset)

lemma sorted_insert_row:
  "sorted_wrt (row_le ts) ys \<Longrightarrow> sorted_wrt (row_le ts) (insert_row ts x ys)"
proof (induction ys)
  case Nil
  then show ?case by simp
next
  case (Cons y ys)
  show ?case
  proof (cases "row_le ts x y")
    case True
    have "\<forall>z\<in>set ys. row_le ts x z"
      using Cons.prems True row_le_trans by auto
    then show ?thesis using True Cons.prems by simp
  next
    case False
    then have "row_le ts y x" using row_le_total by blast
    then show ?thesis using False Cons by (auto simp: set_insert_row)
  qed
qed

lemma sorted_order_by: "sorted_wrt (row_le ts) (order_by ts xs)"
  by (induction xs) (simp_all add: order_by_def sorted_insert_row)

lemma order_by_sorted: "sorted_wrt (row_le ts) xs \<Longrightarrow> order_by ts xs = xs"
proof (induction xs)
  case Nil
  then show ?case by (simp add: order_by_def)
next
  case (Cons x xs)
  then have "order_by ts xs = xs" by simp
  then have "order_by ts (x # xs) = insert_row ts x xs" by (simp add: order_by_def)
  then show ?case using Cons.prems by (cases xs) auto
qed

text \<open>
  Conversely every sorted arrangement of the rows is what \<open>order_by\<close> returns for a
  suitable order of production: the model leaves the order of tied rows as open as the
  store does.
\<close>

lemma every_arrangement_is_a_result:
  assumes "mset out = mset xs" and "sorted_wrt (row_le ts) out"
  shows "\<exists>scan. (\<forall>ys. mset (scan ys) = mset ys) \<and> order_by ts (scan xs) = out"
proof -
  define scan where "scan ys = (if mset ys = mset out then out else ys)" for ys :: "joined_row list"
  have "\<forall>ys. mset (scan ys) = mset ys" by (simp add: scan_def)
  moreover have "order_by ts (scan xs) = out"
    using assms by (simp add: scan_def order_by_sorted)
  ultimately show ?thesis by blast
qed

text \<open>The default term puts the newer detection first.\<close>

lemma default_order_newest_first:
  "row_le [Desc (SortColumn ColDetectionTime)] (r, Some d, p) (r', Some d', p')
     \<longleftrightarrow> d_detectionTime d' \<le> d_detectionTime d"
  by auto

text \<open>
  Claim C4 says that, for every pagination, sorting and filter input, the function
  returns the slice of the filtered ordered result set and the count under the same
  predicate. For every sorting without the id \<open>__proto__\<close> that is so, whatever order
  the store produces tied rows in: the rows are the slice, at offset
  pageIndex * pageSize and of at most pageSize rows, of a list that holds exactly the
  rows matching the compiled predicate and is sorted by the compiled terms, and
  totalRowCount is the number of rows matching that same predicate (the count query
  skips the join with the license plates, which neither adds nor drops a row, the plate
  id being a primary key). With pageSize 10 and 25 matching rows, page 0 has 10 rows and
  page 2 has 5.
\<close>

lemma history_page_and_count:
  assumes "distinct (map lp_id (licensePlates s))"
    and "\<not> fails HistoryPageQuery" and "\<not> fails HistoryCountQuery"
    and "\<forall>xs. mset (scan xs) = mset xs"
    and "''__proto__'' \<notin> set (map fst sorting)"
  shows "\<exists>res ts ordered.
      fetchDetectionHistory fails il tz scan s (pageIndex, pageSize) sorting filters = Inr res
    \<and> parseSortingToDrizzle sorting = Inr ts
    \<and> mset ordered
        = mset (filter (where_keeps il (parseFiltersToDrizzle tz filters)) (baseQuery s))
    \<and> sorted_wrt (row_le ts) ordered
    \<and> rows res = take pageSize (drop (pageIndex * pageSize) ordered)
    \<and> totalRowCount res
        = length (filter (where_keeps il (parseFiltersToDrizzle tz filters)) (baseQuery s))
    \<and> length (rows res) = min pageSize (totalRowCount res - pageIndex * pageSize)
    \<and> length (rows res) \<le> pageSize
    \<and> (totalRowCount res = 25 \<and> pageSize = 10 \<longrightarrow>
         (pageIndex = 0 \<longrightarrow> length (rows res) = 10) \<and> (pageIndex = 2 \<longrightarrow> length (rows res) = 5))"
proof -
  define matching where
    "matching = filter (where_keeps il (parseFiltersToDrizzle tz filters)) (baseQuery s)"
  obtain ts where ts: "parseSortingToDrizzle sorting = Inr ts"
    using assms(5) by (cases "sorting = []") (auto simp: parseSorting_raises)
  define ordered where "ordered = order_by ts (scan matching)"
  define res where "res = \<lparr> rows = take pageSize (drop (pageIndex * pageSize) ordered),
      totalRowCount = length matching \<rparr>"
  have f: "fetchDetectionHistory fails il tz scan s (pageIndex, pageSize) sorting filters = Inr res"
    using assms(1,2,3) ts
    by (simp add: fetchDetectionHistory_def Let_def count_query_agrees res_def ordered_def
        matching_def)
  have m: "mset ordered = mset matching"
    using assms(4) by (simp add: ordered_def mset_order_by)
  have srt: "sorted_wrt (row_le ts) ordered"
    by (simp add: ordered_def sorted_order_by)
  have len: "length ordered = length matching"
    using m by (metis size_mset)
  have l1: "length (rows res) = min pageSize (totalRowCount res - pageIndex * pageSize)"
    by (simp add: res_def len min_def)
  have l2: "totalRowCount res = 25 \<and> pageSize = 10 \<longrightarrow>
         (pageIndex = 0 \<longrightarrow> length (rows res) = 10) \<and> (pageIndex = 2 \<longrightarrow> length (rows res) = 5)"
    using l1 by auto
  have l3: "length (rows res) \<le> pageSize" using l1 by simp
  have r: "rows res = take pageSize (drop (pageIndex * pageSize) ordered)"
    "totalRowCount res = length matching"
    by (simp_all add: res_def)
  show ?thesis
    using f ts m srt r l1 l3 l2 unfolding matching_def by blast
qed

text \<open>
  On the example store all 25 matching rows tie under the default ordering (one
  detection). Read as stored, page 0 holds the ids 1 to 10; read in reverse, the ids 25
  down to 16; both are slices of an ordered result set, and the count is 25 in both.
\<close>

lemma ex_count:
  "length (filter (where_keeps ex_ilike (parseFiltersToDrizzle 0 ex_filters))
             (baseQuery ex_history_store)) = 25
   \<and> length (baseQuery ex_history_store) = 26"
  by code_simp

lemma ex_pages:
  "map_sum id (\<lambda>res. (map (\<lambda>row. r_id (fst row)) (rows res), totalRowCount res))
     (fetchDetectionHistory no_failure ex_ilike 0 as_stored ex_history_store (0, 10) [] ex_filters)
     = Inr ([1, 2, 3, 4, 5, 6, 7, 8, 9, 10], 25)
   \<and> map_sum id (\<lambda>res. (map (\<lambda>row. r_id (fst row)) (rows res), totalRowCount res))
     (fetchDetectionHistory no_failure ex_ilike 0 ex_scan ex_history_store (0, 10) [] ex_filters)
     = Inr ([25, 24, 23, 22, 21, 20, 19, 18, 17, 16], 25)
   \<and> map_sum id (\<lambda>res. (map (\<lambda>row. r_id (fst row)) (rows res), totalRowCount res))
     (fetchDetectionHistory no_failure ex_ilike 0 ex_scan ex_history_store (2, 10) [] ex_filters)
     = Inr ([5, 4, 3, 2, 1], 25)"
  by code_simp

lemma history_page_and_count_example:
  "(\<exists>res. fetchDetectionHistory no_failure ex_ilike 0 ex_scan ex_history_store (0, 10) []
              ex_filters = Inr res \<and> totalRowCount res = 25 \<and> length (rows res) = 10)
   \<and> (\<exists>res. fetchDetectionHistory no_failure ex_ilike 0 ex_scan ex_history_store (2, 10) []
              ex_filters = Inr res \<and> totalRowCount res = 25 \<and> length (rows res) = 5)"
proof -
  have d: "distinct (map lp_id (licensePlates ex_history_store))"
    by (simp add: ex_history_store_def)
  have f: "\<not> no_failure HistoryPageQuery" "\<not> no_failure HistoryCountQuery"
    by (simp_all add: no_failure_def)
  have p: "\<forall>xs. mset (ex_scan xs) = mset xs" by (simp add: ex_scan_def)
  have n: "''__proto__'' \<notin> set (map fst ([] :: (string \<times> bool) list))" by simp
  show ?thesis
    using history_page_and_count[OF d f p n, of ex_ilike 0 0 10 ex_filters]
      history_page_and_count[OF d f p n, of ex_ilike 0 2 10 ex_filters] ex_count
    by auto
qed

text \<open>
  Claim C4 fails at the sort id \<open>__proto__\<close>, for any store, pagination and filters:
  \<open>parseSortingToDrizzle\<close> raises on line 330, before the \<open>try\<close> block, and the
  function throws that TypeError instead of returning rows and a count. An id that is
  merely unknown gives the page and the count.
\<close>

theorem history_sort_proto_uncaught:
  "fetchDetectionHistory fails il tz scan s pagination [(''__proto__'', dsc)] filters
     = Inl (Uncaught TypeError)
   \<and> (\<exists>res. fetchDetectionHistory no_failure ex_ilike 0 ex_scan ex_history_store (0, 10)
              [(''no-such-column'', False)] ex_filters = Inr res
            \<and> totalRowCount res = 25 \<and> length (rows res) = 10)"
proof
  show "fetchDetectionHistory fails il tz scan s pagination [(''__proto__'', dsc)] filters
     = Inl (Uncaught TypeError)"
    by (simp add: fetchDetectionHistory_def parseSorting_raises)
  have d: "distinct (map lp_id (licensePlates ex_history_store))"
    by (simp add: ex_history_store_def)
  have f: "\<not> no_failure HistoryPageQuery" "\<not> no_failure HistoryCountQuery"
    by (simp_all add: no_failure_def)
  have p: "\<forall>xs. mset (ex_scan xs) = mset xs" by (simp add: ex_scan_def)
  have n: "''__proto__'' \<notin> set (map fst [(''no-such-column'', False)])" by simp
  show "\<exists>res. fetchDetectionHistory no_failure ex_ilike 0 ex_scan ex_history_store (0, 10)
              [(''no-such-column'', False)] ex_filters = Inr res
            \<and> totalRowCount res = 25 \<and> length (rows res) = 10"
    using history_page_and_count[OF d f p n, of ex_ilike 0 0 10 ex_filters] ex_count
    by auto
qed

section \<open>The options reader (C9)\<close>

lemma map_filter_Some: "List.map_filter (\<lambda>e. e) (map Some xs) = xs"
  by (induction xs) simp_all

lemma set_map_filter: "set (List.map_filter f xs) = {y. Some y \<in> set (map f xs)}"
  by (induction xs) (auto split: option.splits)

lemma strict_by_key:
  assumes "sorted (map f xs)" "distinct xs" "inj_on f (set xs)"
  shows "sorted_wrt (\<lambda>a b. f a < f b) xs"
proof -
  have "distinct (map f xs)" using assms(2,3) by (simp add: distinct_map)
  with assms(1) have "sorted_wrt (<) (map f xs)" by (simp add: strict_sorted_iff)
  then show ?thesis by (simp add: sorted_wrt_map)
qed

lemma enum_pos_less: "v \<in> set E \<Longrightarrow> enum_pos E v < length E"
  by (induction E) auto

lemma enum_pos_nth: "v \<in> set E \<Longrightarrow> E ! enum_pos E v = v"
  by (induction E) auto

lemma enum_pos_inj: "inj_on (enum_pos E) (set E)"
  by (rule inj_onI) (metis enum_pos_nth)

text \<open>
  Claim C9, as amended. getFilterOptions returns three lists computed independently:
  the distinct non-null non-empty OCR engines, the distinct non-null vehicle categories
  and the distinct non-null sources, each holding exactly the values some row holds (none
  is made up) and none twice. The OCR engines are in ascending text order. The vehicle
  categories and the sources are enum columns and come in ascending order of the enum's
  declaration (car, truck, motorcycle, bus, special, other; upload, camera, import,
  api), strictly so and without an empty string when the stored values are labels of the
  enum.
\<close>

theorem filter_options_lists:
  assumes "getFilterOptions fails s = Inr opts"
  shows "sorted (ocrEngines opts) \<and> distinct (ocrEngines opts)
     \<and> [] \<notin> set (ocrEngines opts)
     \<and> set (ocrEngines opts)
         = {e. e \<noteq> [] \<and> Some e \<in> set (map r_ocrEngineUsed (detectedPlateResults s))}
     \<and> sorted (map (enum_pos vehicleCategoryEnum) (vehicleTypes opts))
     \<and> distinct (vehicleTypes opts)
     \<and> set (vehicleTypes opts) = {t. Some t \<in> set (map r_typeVehicle (detectedPlateResults s))}
     \<and> sorted (map (enum_pos detectionSourceEnum) (sources opts))
     \<and> distinct (sources opts)
     \<and> set (sources opts) = {x. Some x \<in> set (map d_source (detections s))}
     \<and> (set (vehicleTypes opts) \<subseteq> set vehicleCategoryEnum \<longrightarrow>
          sorted_wrt (\<lambda>a b. enum_pos vehicleCategoryEnum a < enum_pos vehicleCategoryEnum b)
            (vehicleTypes opts)
          \<and> [] \<notin> set (vehicleTypes opts))
     \<and> (set (sources opts) \<subseteq> set detectionSourceEnum \<longrightarrow>
          sorted_wrt (\<lambda>a b. enum_pos detectionSourceEnum a < enum_pos detectionSourceEnum b)
            (sources opts)
          \<and> [] \<notin> set (sources opts))"
proof -
  have o: "ocrEngines opts = sort (remdups (filter (\<lambda>e. e \<noteq> '''')
              (List.map_filter r_ocrEngineUsed (detectedPlateResults s))))"
    and v: "vehicleTypes opts = sort_key (enum_pos vehicleCategoryEnum)
              (remdups (List.map_filter r_typeVehicle (detectedPlateResults s)))"
    and c: "sources opts = sort_key (enum_pos detectionSourceEnum)
              (remdups (List.map_filter d_source (detections s)))"
    using assms
    by (auto simp: getFilterOptions_def enginesQuery_def typesQuery_def sourcesQuery_def
        map_filter_Some split: if_splits)
  have v1: "sorted (map (enum_pos vehicleCategoryEnum) (vehicleTypes opts))"
    unfolding v by (rule sorted_sort_key)
  have v2: "distinct (vehicleTypes opts)" unfolding v by simp
  have c1: "sorted (map (enum_pos detectionSourceEnum) (sources opts))"
    unfolding c by (rule sorted_sort_key)
  have c2: "distinct (sources opts)" unfolding c by simp
  have v3: "sorted_wrt (\<lambda>a b. enum_pos vehicleCategoryEnum a < enum_pos vehicleCategoryEnum b)
            (vehicleTypes opts) \<and> [] \<notin> set (vehicleTypes opts)"
    if sub: "set (vehicleTypes opts) \<subseteq> set vehicleCategoryEnum"
  proof
    have "inj_on (enum_pos vehicleCategoryEnum) (set (vehicleTypes opts))"
      using enum_pos_inj sub by (rule inj_on_subset)
    with v1 v2 show "sorted_wrt (\<lambda>a b. enum_pos vehicleCategoryEnum a < enum_pos vehicleCategoryEnum b)
            (vehicleTypes opts)" by (rule strict_by_key)
    show "[] \<notin> set (vehicleTypes opts)"
      using sub by (auto simp: vehicleCategoryEnum_def)
  qed
  have c3: "sorted_wrt (\<lambda>a b. enum_pos detectionSourceEnum a < enum_pos detectionSourceEnum b)
            (sources opts) \<and> [] \<notin> set (sources opts)"
    if sub: "set (sources opts) \<subseteq> set detectionSourceEnum"
  proof
    have "inj_on (enum_pos detectionSourceEnum) (set (sources opts))"
      using enum_pos_inj sub by (rule inj_on_subset)
    with c1 c2 show "sorted_wrt (\<lambda>a b. enum_pos detectionSourceEnum a < enum_pos detectionSourceEnum b)
            (sources opts)" by (rule strict_by_key)
    show "[] \<notin> set (sources opts)"
      using sub by (auto simp: detectionSourceEnum_def)
  qed
  have o1: "sorted (ocrEngines opts)" "distinct (ocrEngines opts)" "[] \<notin> set (ocrEngines opts)"
    unfolding o by simp_all
  have o2: "set (ocrEngines opts)
         = {e. e \<noteq> [] \<and> Some e \<in> set (map r_ocrEngineUsed (detectedPlateResults s))}"
    unfolding o by (auto simp: set_map_filter)
  have v4: "set (vehicleTypes opts) = {t. Some t \<in> set (map r_typeVehicle (detectedPlateResults s))}"
    unfolding v by (simp add: set_map_filter)
  have c4: "set (sources opts) = {x. Some x \<in> set (map d_source (detections s))}"
    unfolding c by (simp add: set_map_filter)
  show ?thesis
    using o1 o2 v1 v2 v4 c1 c2 c4 v3 c3 by blast
qed

lemma ex_options:
  "getFilterOptions no_failure ex_options_store
     = Inr \<lparr> ocrEngines = [''paddleocr'', ''tesseract''],
             vehicleTypes = [''truck'', ''bus''],
             sources = [''upload'', ''camera''] \<rparr>"
  by code_simp

theorem filter_options_lists_witness:
  "getFilterOptions no_failure ex_options_store
     = Inr \<lparr> ocrEngines = [''paddleocr'', ''tesseract''],
             vehicleTypes = [''truck'', ''bus''],
             sources = [''upload'', ''camera''] \<rparr>
   \<and> sorted [''paddleocr'', ''tesseract'']
   \<and> set [''truck'', ''bus''] \<subseteq> set vehicleCategoryEnum
   \<and> sorted_wrt (\<lambda>a b. enum_pos vehicleCategoryEnum a < enum_pos vehicleCategoryEnum b)
        [''truck'', ''bus'']
   \<and> set [''upload'', ''camera''] \<subseteq> set detectionSourceEnum
   \<and> sorted_wrt (\<lambda>a b. enum_pos detectionSourceEnum a < enum_pos detectionSourceEnum b)
        [''upload'', ''camera'']
   \<and> set [''upload'', ''camera''] = {x. Some x \<in> set (map d_source (detections ex_options_store))}"
proof -
  let ?o = "\<lparr> ocrEngines = [''paddleocr'', ''tesseract''],
             vehicleTypes = [''truck'', ''bus''],
             sources = [''upload'', ''camera''] \<rparr>"
  have sel: "ocrEngines ?o = [''paddleocr'', ''tesseract'']"
    "vehicleTypes ?o = [''truck'', ''bus'']"
    "sources ?o = [''upload'', ''camera'']"
    by simp_all
  have sub: "set (vehicleTypes ?o) \<subseteq> set vehicleCategoryEnum"
    "set (sources ?o) \<subseteq> set detectionSourceEnum"
    by (simp_all add: vehicleCategoryEnum_def detectionSourceEnum_def)
  from filter_options_lists[OF ex_options] sub have r:
    "sorted (ocrEngines ?o)"
    "sorted_wrt (\<lambda>a b. enum_pos vehicleCategoryEnum a < enum_pos vehicleCategoryEnum b)
       (vehicleTypes ?o)"
    "sorted_wrt (\<lambda>a b. enum_pos detectionSourceEnum a < enum_pos detectionSourceEnum b)
       (sources ?o)"
    "set (sources ?o) = {x. Some x \<in> set (map d_source (detections ex_options_store))}"
    by blast+
  show ?thesis
    using ex_options r[unfolded sel] sub[unfolded sel] by blast
qed

text \<open>
  As first stated (each list sorted ascending) the claim fails on the enum columns: the
  lists are strings, and in the order the store gives them truck comes before bus and
  upload before camera.
\<close>

theorem filter_options_enum_order_counterexample:
  "getFilterOptions no_failure ex_options_store
     = Inr \<lparr> ocrEngines = [''paddleocr'', ''tesseract''],
             vehicleTypes = [''truck'', ''bus''],
             sources = [''upload'', ''camera''] \<rparr>
   \<and> \<not> sorted [''truck'', ''bus'']
   \<and> \<not> sorted [''upload'', ''camera'']"
  using ex_options by simp

end
